theory Spec2Isabelle
  imports Complex_Main "HOL-Library.Word" "HOL-Library.AList" "HOL-Library.Sublist"
begin

section \<open>JavaScript strings\<close>

text \<open>
  A JavaScript string is a sequence of UTF-16 code units; \<open>s.length\<close> and
  \<open>s.substring\<close> count code units. A string is therefore a list of 16-bit words.
  \<open>ascii\<close> embeds the ASCII literals of the source.
\<close>

type_synonym jstring = "16 word list"

definition ascii :: "string \<Rightarrow> jstring" where
  "ascii s = map (\<lambda>c. of_nat (of_char c)) s"

text \<open>The line feed of the source's \<^verbatim>\<open>\n\<close>.\<close>

definition nl :: jstring where
  "nl = [10]"

text \<open>The single quote.\<close>

definition quote :: jstring where
  "quote = [39]"

text \<open>The package emoji U+1F4E6 of the source's literals: a surrogate pair.\<close>

definition box :: jstring where
  "box = [0xD83D, 0xDCE6]"

text \<open>
  Number-to-string conversion of a template literal, for a non-negative integer below
  \<open>2^53\<close> (every array length and HTTP status is one): the decimal digits.
\<close>

fun showNat :: "nat \<Rightarrow> jstring" where
  "showNat n = (if n < 10 then [of_nat (48 + n)] else showNat (n div 10) @ [of_nat (48 + n mod 10)])"

declare showNat.simps [simp del]

text \<open>Reading a decimal numeral back, to state what \<open>showNat\<close> prints.\<close>

definition readNat :: "jstring \<Rightarrow> nat" where
  "readNat s = foldl (\<lambda>a d. 10 * a + (unat d - 48)) 0 s"

text \<open>\<open>Array.prototype.join\<close> on an array of strings.\<close>

fun join :: "jstring \<Rightarrow> jstring list \<Rightarrow> jstring" where
  "join sep [] = []"
| "join sep [x] = x"
| "join sep (x # y # ys) = x @ sep @ join sep (y # ys)"

text \<open>
  Splitting a line at every \<open>", "\<close>: the reader of a joined list, used to state which
  strings a formatted line shows.
\<close>

fun splitCommaSpace :: "jstring \<Rightarrow> jstring \<Rightarrow> jstring list" where
  "splitCommaSpace acc [] = [acc]"
| "splitCommaSpace acc [c] = [acc @ [c]]"
| "splitCommaSpace acc (c # d # cs) =
     (if c = 44 \<and> d = 32 then acc # splitCommaSpace [] cs
      else splitCommaSpace (acc @ [c]) (d # cs))"


section \<open>JavaScript values\<close>

text \<open>
  The values \<open>JSON.parse\<close> produces, and \<open>undefined\<close> (what reading an absent property
  gives). A number is the rational a double is. An object lists its own properties in the
  order JavaScript enumerates them, each key once: the order of insertion, for keys that
  are no array indices (the keys of the registry, names and semantic versions, are none).
\<close>

datatype jsvalue = JUndefined | JNull | JBool bool | JNum rat | JStr jstring
  | JArr "jsvalue list" | JObj "(jstring \<times> jsvalue) list"

text \<open>
  What the source throws and catches. \<open>TypeError\<close> is an \<open>Error\<close> too
  (\<open>error instanceof Error\<close>); \<open>McpError\<close> is the SDK's protocol-level error.
\<close>

datatype ErrorCode = InvalidParams | MethodNotFound

datatype js_error = Error jstring | TypeError jstring | McpError ErrorCode jstring

fun errorMessage :: "js_error \<Rightarrow> jstring" where
  "errorMessage (Error m) = m"
| "errorMessage (TypeError m) = m"
| "errorMessage (McpError c m) = m"

text \<open>Sequencing of computations that may throw.\<close>

fun bindE :: "'e + 'a \<Rightarrow> ('a \<Rightarrow> 'e + 'b) \<Rightarrow> 'e + 'b" where
  "bindE (Inl e) f = Inl e"
| "bindE (Inr a) f = f a"

fun mapE :: "('a \<Rightarrow> 'e + 'b) \<Rightarrow> 'a list \<Rightarrow> 'e + 'b list" where
  "mapE f [] = Inr []"
| "mapE f (x # xs) = bindE (f x) (\<lambda>y. bindE (mapE f xs) (\<lambda>ys. Inr (y # ys)))"

text \<open>
  The host: what the JavaScript runtime and the external collaborators compute. The
  source calls them; their code is not the repository's.
\<close>

datatype http_reply =
    FetchRejected js_error
  | Response (status: nat) (jsonBody: "js_error + jsvalue") (textBody: "js_error + jstring")

record host =
  numberText :: "rat \<Rightarrow> jstring"
  localeDate :: "jsvalue \<Rightarrow> jstring"
  uriComponent :: "jstring \<Rightarrow> js_error + jstring"
  validUrl :: "jstring \<Rightarrow> bool"
  stringify :: "jsvalue \<Rightarrow> jstring"
  pathResolve :: "jstring \<Rightarrow> jstring"
  existsSync :: "jstring \<Rightarrow> bool"
  fetch :: "jstring \<Rightarrow> http_reply"
  pageRegions :: "jstring \<Rightarrow> jstring \<times> jstring \<times> jstring \<times> jstring"
  ncuRun :: "(jstring \<times> jsvalue) list \<Rightarrow> js_error + jsvalue"

text \<open>
  \<open>numberText\<close> is \<open>Number.prototype.toString\<close> on the numbers that are no integers of
  magnitude below \<open>2^53\<close> (there it prints the shortest digits that read back as the same
  double, not modelled here),
  \<open>localeDate v\<close> is \<open>new Date(v).toLocaleDateString()\<close> for a primitive \<open>v\<close>,
  \<open>uriComponent\<close> is \<open>encodeURIComponent\<close>, \<open>validUrl\<close> is zod's \<open>url()\<close> check,
  \<open>stringify v\<close> is \<open>JSON.stringify(v, null, 2)\<close>, \<open>pathResolve p\<close> is
  \<open>path.resolve(process.cwd(), p)\<close>, \<open>fetch\<close> is what \<open>fetchWithTimeout\<close> settles to,
  \<open>pageRegions html\<close> are the four trimmed texts cheerio selects from the page, and
  \<open>ncuRun\<close> is \<open>ncu.run\<close>.
\<close>

definition numberToString :: "host \<Rightarrow> rat \<Rightarrow> jstring" where
  "numberToString h q =
     (if of_int \<lfloor>q\<rfloor> = q \<and> \<bar>q\<bar> < 2 ^ 53
      then (if q < 0 then ascii ''-'' @ showNat (nat (- \<lfloor>q\<rfloor>)) else showNat (nat \<lfloor>q\<rfloor>))
      else numberText h q)"

text \<open>
  \<open>ToString\<close>, as a template literal and \<open>.toString()\<close> apply it to a parsed value. An
  array joins its elements with commas (\<open>null\<close> and \<open>undefined\<close> print as nothing). An
  object prints as \<open>[object Object]\<close>, unless it has an own property \<open>toString\<close>: that is
  no function, and the conversion throws.
\<close>

fun toStringJS :: "host \<Rightarrow> jsvalue \<Rightarrow> js_error + jstring"
  and joinJS :: "host \<Rightarrow> jsvalue list \<Rightarrow> js_error + jstring" where
  "toStringJS h JUndefined = Inr (ascii ''undefined'')"
| "toStringJS h JNull = Inr (ascii ''null'')"
| "toStringJS h (JBool b) = Inr (if b then ascii ''true'' else ascii ''false'')"
| "toStringJS h (JNum q) = Inr (numberToString h q)"
| "toStringJS h (JStr s) = Inr s"
| "toStringJS h (JArr xs) = joinJS h xs"
| "toStringJS h (JObj kvs) =
     (if ascii ''toString'' \<in> fst ` set kvs
      then Inl (TypeError (ascii ''Cannot convert object to primitive value''))
      else Inr (ascii ''[object Object]''))"
| "joinJS h [] = Inr []"
| "joinJS h (x # xs) =
     bindE (if x = JUndefined \<or> x = JNull then Inr [] else toStringJS h x)
       (\<lambda>s. if xs = [] then Inr s
            else bindE (joinJS h xs) (\<lambda>r. Inr (s @ ascii '','' @ r)))"

fun truthy :: "jsvalue \<Rightarrow> bool" where
  "truthy JUndefined = False"
| "truthy JNull = False"
| "truthy (JBool b) = b"
| "truthy (JNum q) = (q \<noteq> 0)"
| "truthy (JStr s) = (s \<noteq> [])"
| "truthy (JArr xs) = True"
| "truthy (JObj kvs) = True"

definition nullish :: "jsvalue \<Rightarrow> bool" where
  "nullish v = (v = JUndefined \<or> v = JNull)"

text \<open>
  Reading the property \<open>k\<close> of a value, \<open>v.k\<close>, for the names the source reads (none of
  them a member of a prototype): the own property of an object or \<open>undefined\<close>;
  \<open>undefined\<close> on any other value but \<open>null\<close> and \<open>undefined\<close>, where it throws.
\<close>

definition get :: "jsvalue \<Rightarrow> string \<Rightarrow> js_error + jsvalue" where
  "get v k =
     (case v of
        JUndefined \<Rightarrow> Inl (TypeError (ascii ''Cannot read properties of undefined (reading '' @ quote @ ascii k @ quote @ ascii '')''))
      | JNull \<Rightarrow> Inl (TypeError (ascii ''Cannot read properties of null (reading '' @ quote @ ascii k @ quote @ ascii '')''))
      | JObj kvs \<Rightarrow> Inr (case map_of kvs (ascii k) of Some x \<Rightarrow> x | None \<Rightarrow> JUndefined)
      | _ \<Rightarrow> Inr JUndefined)"

text \<open>The own property \<open>k\<close> of an object, \<open>undefined\<close> when it has none.\<close>

definition field :: "(jstring \<times> jsvalue) list \<Rightarrow> string \<Rightarrow> jsvalue" where
  "field kvs k = (case map_of kvs (ascii k) of Some v \<Rightarrow> v | None \<Rightarrow> JUndefined)"

text \<open>
  The property \<open>k\<close> of a value that is neither \<open>null\<close> nor \<open>undefined\<close>: what \<open>get\<close> returns
  there.
\<close>

definition valueAt :: "jsvalue \<Rightarrow> string \<Rightarrow> jsvalue" where
  "valueAt v k = (case v of JObj kvs \<Rightarrow> field kvs k | _ \<Rightarrow> JUndefined)"

text \<open>Optional chaining \<open>v?.k\<close>.\<close>

definition getOpt :: "jsvalue \<Rightarrow> string \<Rightarrow> js_error + jsvalue" where
  "getOpt v k = (if nullish v then Inr JUndefined else get v k)"

text \<open>\<open>Object.entries\<close> and \<open>Object.keys\<close>.\<close>

definition objectEntries :: "jsvalue \<Rightarrow> js_error + (jstring \<times> jsvalue) list" where
  "objectEntries v =
     (case v of
        JUndefined \<Rightarrow> Inl (TypeError (ascii ''Cannot convert undefined or null to object''))
      | JNull \<Rightarrow> Inl (TypeError (ascii ''Cannot convert undefined or null to object''))
      | JObj kvs \<Rightarrow> Inr kvs
      | JArr xs \<Rightarrow> Inr (zip (map showNat [0..<length xs]) xs)
      | JStr s \<Rightarrow> Inr (zip (map showNat [0..<length s]) (map (\<lambda>c. JStr [c]) s))
      | _ \<Rightarrow> Inr [])"

definition objectKeys :: "jsvalue \<Rightarrow> js_error + jstring list" where
  "objectKeys v = bindE (objectEntries v) (\<lambda>es. Inr (map fst es))"

text \<open>
  \<open>Object.fromEntries\<close>, and the spread of an object into a literal: a key that is there
  already keeps its place and takes the new value, a new key goes last.
\<close>

definition fromEntries :: "(jstring \<times> jsvalue) list \<Rightarrow> (jstring \<times> jsvalue) list" where
  "fromEntries es = fold (\<lambda>(k, v) obj. AList.update k v obj) es []"

definition spread :: "(jstring \<times> jsvalue) list \<Rightarrow> (jstring \<times> jsvalue) list \<Rightarrow> (jstring \<times> jsvalue) list" where
  "spread obj es = fold (\<lambda>(k, v) obj. AList.update k v obj) es obj"

text \<open>\<open>xs.slice(-n)\<close>: the last \<open>n\<close> elements, all of them when there are fewer.\<close>

definition sliceLast :: "nat \<Rightarrow> 'a list \<Rightarrow> 'a list" where
  "sliceLast n xs = drop (length xs - n) xs"

section \<open>NpmSearcher: the formatters\<close>

text \<open>\<open>formatVersions(packageName, versions)\<close>.\<close>

definition moreVersions :: "nat \<Rightarrow> jstring" where
  "moreVersions n = nl @ ascii ''...and '' @ showNat n @ ascii '' more versions''"

definition formatVersions :: "jstring \<Rightarrow> jstring list \<Rightarrow> jstring" where
  "formatVersions packageName versions =
     (if length versions = 0 then ascii ''No versions found for '' @ packageName @ ascii ''.''
      else
        let output = box @ ascii '' '' @ packageName @ nl @ ascii ''Available versions (newest first):'' @ nl;
            output = output @ join (ascii '', '') (take 15 versions)
        in if length versions > 15 then output @ moreVersions (length versions - 15) else output)"

text \<open>
  The text assembly of \<open>fetchPackageContent\<close>, after cheerio has extracted and trimmed the
  four page regions (\<open>#top h1\<close>, the version badge, \<open>#package-description\<close>, \<open>#readme\<close>).
  An empty string is falsy, so an empty region adds nothing.
\<close>

definition truncationMarker :: jstring where
  "truncationMarker = ascii ''...'' @ nl @ ascii ''[README content truncated]''"

definition readmeBody :: "jstring \<Rightarrow> jstring" where
  "readmeBody readme =
     (if length readme > 4000 then take 4000 readme @ truncationMarker else readme)"

definition packageContent :: "jstring \<Rightarrow> jstring \<Rightarrow> jstring \<Rightarrow> jstring \<Rightarrow> jstring" where
  "packageContent packageName packageVersion description readme =
     (let content = [];
          content = (if packageName \<noteq> [] then content @ ascii ''Package: '' @ packageName @ nl else content);
          content = (if packageVersion \<noteq> [] then content @ ascii ''Version: '' @ packageVersion @ nl else content);
          content = (if description \<noteq> [] then content @ ascii ''Description: '' @ description @ nl @ nl else content);
          content = (if readme \<noteq> [] then content @ ascii ''README:'' @ nl @ readmeBody readme else content)
      in if content \<noteq> [] then content else ascii ''No extractable content found.'')"

section \<open>Effects\<close>

text \<open>
  What a handler does to the world besides computing its result, in the order it does it:
  a call of \<open>RateLimiter.acquire\<close>, a \<open>fetchWithTimeout\<close> of a URL, an \<open>fs.existsSync\<close> of a
  path, a call of \<open>ncu.run\<close> with its options. A task is the effects of an asynchronous
  function that settles, with what it settles to.
\<close>

datatype effect =
    Acquire
  | Fetch jstring
  | ExistsSync jstring
  | NcuRun "(jstring \<times> jsvalue) list"

type_synonym 'a task = "effect list \<times> (js_error + 'a)"

definition pure :: "js_error + 'a \<Rightarrow> 'a task" where
  "pure r = ([], r)"

definition perform :: "effect \<Rightarrow> unit task" where
  "perform ev = ([ev], Inr ())"

fun andThen :: "'a task \<Rightarrow> ('a \<Rightarrow> 'b task) \<Rightarrow> 'b task" where
  "andThen (es, Inl e) f = (es, Inl e)"
| "andThen (es, Inr a) f = (es @ fst (f a), snd (f a))"

text \<open>\<open>try { ... } catch (error) { throw new Error(pre + error.message) }\<close>.\<close>

fun catchWrap :: "jstring \<Rightarrow> 'a task \<Rightarrow> 'a task" where
  "catchWrap pre (es, Inl e) = (es, Inl (Error (pre @ errorMessage e)))"
| "catchWrap pre (es, Inr a) = (es, Inr a)"

definition httpGet :: "host \<Rightarrow> jstring \<Rightarrow> http_reply task" where
  "httpGet h u =
     ([Fetch u], case fetch h u of FetchRejected e \<Rightarrow> Inl e | r \<Rightarrow> Inr r)"

text \<open>\<open>if (!response.ok) throw new Error(`HTTP error! Status: ${response.status}`)\<close>.\<close>

definition checkOk :: "http_reply \<Rightarrow> http_reply task" where
  "checkOk r =
     (if 200 \<le> status r \<and> status r \<le> 299 then pure (Inr r)
      else pure (Inl (Error (ascii ''HTTP error! Status: '' @ showNat (status r)))))"

section \<open>NpmSearcher: shaping the registry's payloads\<close>

record NpmPackageInfo =
  name :: jsvalue
  version :: jsvalue
  description :: jsvalue
  author :: jsvalue
  homepage :: jsvalue
  repository :: jsvalue
  keywords' :: jsvalue
  weeklyDownloads :: jsvalue
  lastPublish :: jsvalue

record NpmSearchResult =
  packages :: "NpmPackageInfo list"
  totalResults :: jsvalue

record SearchNpmArgs =
  query :: jstring
  maxResults :: rat

record FetchPackageContentArgs =
  url :: jstring

record GetPackageArgs =
  packageName :: jstring

definition REGISTRY_URL :: jstring where
  "REGISTRY_URL = ascii ''https://registry.npmjs.org''"

text \<open>\<open>obj.package.k\<close>.\<close>

definition packageField :: "jsvalue \<Rightarrow> string \<Rightarrow> js_error + jsvalue" where
  "packageField obj k = bindE (get obj ''package'') (\<lambda>p. get p k)"

text \<open>
  The argument of \<open>new Date(v)\<close> as a primitive: an array or an object is converted to
  its string first.
\<close>

definition datePrimitive :: "host \<Rightarrow> jsvalue \<Rightarrow> js_error + jsvalue" where
  "datePrimitive h v =
     (case v of
        JArr xs \<Rightarrow> bindE (toStringJS h v) (\<lambda>s. Inr (JStr s))
      | JObj kvs \<Rightarrow> bindE (toStringJS h v) (\<lambda>s. Inr (JStr s))
      | _ \<Rightarrow> Inr v)"

text \<open>The function \<open>searchPackages\<close> maps over \<open>data.objects\<close>.\<close>

definition mapPackage :: "host \<Rightarrow> jsvalue \<Rightarrow> js_error + NpmPackageInfo" where
  "mapPackage h obj =
     bindE (packageField obj ''name'') (\<lambda>n.
     bindE (packageField obj ''version'') (\<lambda>v.
     bindE (packageField obj ''description'') (\<lambda>d.
     bindE (bindE (packageField obj ''author'') (\<lambda>a. getOpt a ''name'')) (\<lambda>a.
     bindE (bindE (packageField obj ''links'') (\<lambda>l. getOpt l ''homepage'')) (\<lambda>hp.
     bindE (bindE (packageField obj ''links'') (\<lambda>l. getOpt l ''repository'')) (\<lambda>r.
     bindE (packageField obj ''keywords'') (\<lambda>k.
     bindE (bindE (get obj ''score'') (\<lambda>s. bindE (getOpt s ''detail'') (\<lambda>d. bindE (getOpt d ''maintenance'')
              (\<lambda>m. if nullish m then Inr JUndefined else bindE (toStringJS h m) (\<lambda>t. Inr (JStr t)))))) (\<lambda>w.
     bindE (bindE (packageField obj ''date'') (datePrimitive h)) (\<lambda>p.
       Inr \<lparr>name = n, version = v, description = d, author = a, homepage = hp, repository = r,
            keywords' = (if truthy k then k else JArr []), weeklyDownloads = w,
            lastPublish = JStr (localeDate h p)\<rparr>)))))))))"

text \<open>
  \<open>data.objects.map(...)\<close> and \<open>{ packages, totalResults: data.total }\<close>: what
  \<open>searchPackages\<close> makes of the parsed response.
\<close>

definition searchResultOf :: "host \<Rightarrow> jsvalue \<Rightarrow> js_error + NpmSearchResult" where
  "searchResultOf h data =
     bindE (get data ''objects'') (\<lambda>objs.
       case objs of
         JArr xs \<Rightarrow>
           bindE (mapE (mapPackage h) xs) (\<lambda>ps.
           bindE (get data ''total'') (\<lambda>t. Inr \<lparr>packages = ps, totalResults = t\<rparr>))
       | JUndefined \<Rightarrow> Inl (TypeError (ascii ''Cannot read properties of undefined (reading '' @ quote @ ascii ''map'' @ quote @ ascii '')''))
       | JNull \<Rightarrow> Inl (TypeError (ascii ''Cannot read properties of null (reading '' @ quote @ ascii ''map'' @ quote @ ascii '')''))
       | _ \<Rightarrow> Inl (TypeError (ascii ''data.objects.map is not a function'')))"

text \<open>\<open>Object.keys(data.versions).reverse()\<close> of \<open>getPackageVersions\<close>.\<close>

definition versionsOf :: "jsvalue \<Rightarrow> js_error + jstring list" where
  "versionsOf data =
     bindE (get data ''versions'') (\<lambda>vs. bindE (objectKeys vs) (\<lambda>ks. Inr (rev ks)))"

text \<open>The object \<open>getPackageDetails\<close> keeps of one version.\<close>

definition versionDetails :: "jsvalue \<Rightarrow> js_error + jsvalue" where
  "versionDetails details =
     bindE (get details ''name'') (\<lambda>n.
     bindE (get details ''version'') (\<lambda>v.
     bindE (get details ''description'') (\<lambda>d.
     bindE (get details ''main'') (\<lambda>m.
     bindE (get details ''dependencies'') (\<lambda>deps.
     bindE (get details ''devDependencies'') (\<lambda>dev.
     bindE (get details ''peerDependencies'') (\<lambda>peers.
       Inr (JObj [(ascii ''name'', n), (ascii ''version'', v), (ascii ''description'', d),
                  (ascii ''main'', m), (ascii ''dependencies'', deps),
                  (ascii ''devDependencies'', dev), (ascii ''peerDependencies'', peers)]))))))))"

text \<open>The fields \<open>getPackageDetails\<close> keeps of a version.\<close>

definition versionFields :: "string list" where
  "versionFields = [''name'', ''version'', ''description'', ''main'', ''dependencies'',
     ''devDependencies'', ''peerDependencies'']"

definition recentVersions :: "jsvalue \<Rightarrow> js_error + jsvalue" where
  "recentVersions vs =
     bindE (objectEntries vs) (\<lambda>es.
     bindE (mapE (\<lambda>(ver, details). bindE (versionDetails details) (\<lambda>d. Inr (ver, d))) (sliceLast 10 es))
       (\<lambda>kept. Inr (JObj (fromEntries kept))))"

definition recentTimes :: "jsvalue \<Rightarrow> js_error + jsvalue" where
  "recentTimes t =
     (if truthy t then
        bindE (get t ''created'') (\<lambda>c.
        bindE (get t ''modified'') (\<lambda>m.
        bindE (objectEntries t) (\<lambda>es.
          Inr (JObj (spread [(ascii ''created'', c), (ascii ''modified'', m)]
                 (fromEntries (sliceLast 10
                    (filter (\<lambda>(k, v). k \<notin> set [ascii ''created'', ascii ''modified'']) es))))))))
      else Inr JUndefined)"

text \<open>\<open>processedData\<close> of \<open>getPackageDetails\<close>.\<close>

definition processedData :: "jsvalue \<Rightarrow> js_error + jsvalue" where
  "processedData data =
     bindE (get data ''name'') (\<lambda>n.
     bindE (get data ''description'') (\<lambda>d.
     bindE (get data ''dist-tags'') (\<lambda>tags.
     bindE (get data ''maintainers'') (\<lambda>ms.
     bindE (get data ''homepage'') (\<lambda>hp.
     bindE (get data ''repository'') (\<lambda>r.
     bindE (get data ''license'') (\<lambda>l.
     bindE (bindE (get data ''versions'') recentVersions) (\<lambda>vs.
     bindE (bindE (get data ''time'') recentTimes) (\<lambda>t.
       Inr (JObj [(ascii ''name'', n), (ascii ''description'', d), (ascii ''dist-tags'', tags),
                  (ascii ''maintainers'', ms), (ascii ''homepage'', hp), (ascii ''repository'', r),
                  (ascii ''license'', l), (ascii ''versions'', vs), (ascii ''time'', t)]))))))))))"

section \<open>NpmSearcher: the handlers\<close>

definition searchPackages :: "host \<Rightarrow> SearchNpmArgs \<Rightarrow> NpmSearchResult task" where
  "searchPackages h args =
     catchWrap (ascii ''Error searching npm packages: '')
       (andThen (perform Acquire) (\<lambda>_.
        andThen (pure (uriComponent h (query args))) (\<lambda>q.
        andThen (httpGet h (REGISTRY_URL @ ascii ''/-/v1/search?text='' @ q @ ascii ''&size=''
                             @ numberToString h (maxResults args))) (\<lambda>response.
        andThen (checkOk response) (\<lambda>response.
        andThen (pure (jsonBody response)) (\<lambda>data.
        pure (searchResultOf h data)))))))"

definition fetchPackageContent :: "host \<Rightarrow> FetchPackageContentArgs \<Rightarrow> jstring task" where
  "fetchPackageContent h args =
     catchWrap (ascii ''Error fetching package content: '')
       (andThen (perform Acquire) (\<lambda>_.
        andThen (httpGet h (url args)) (\<lambda>response.
        andThen (checkOk response) (\<lambda>response.
        andThen (pure (textBody response)) (\<lambda>html.
        case pageRegions h html of
          (n, v, d, readme) \<Rightarrow> pure (Inr (packageContent n v d readme)))))))"

definition getPackageVersions :: "host \<Rightarrow> GetPackageArgs \<Rightarrow> jstring list task" where
  "getPackageVersions h args =
     catchWrap (ascii ''Error fetching package versions: '')
       (andThen (perform Acquire) (\<lambda>_.
        andThen (httpGet h (REGISTRY_URL @ ascii ''/'' @ packageName args)) (\<lambda>response.
        andThen (checkOk response) (\<lambda>response.
        andThen (pure (jsonBody response)) (\<lambda>data.
        pure (versionsOf data))))))"

definition getPackageDetails :: "host \<Rightarrow> GetPackageArgs \<Rightarrow> jsvalue task" where
  "getPackageDetails h args =
     catchWrap (ascii ''Error fetching package details: '')
       (andThen (perform Acquire) (\<lambda>_.
        andThen (httpGet h (REGISTRY_URL @ ascii ''/'' @ packageName args)) (\<lambda>response.
        andThen (checkOk response) (\<lambda>response.
        andThen (pure (jsonBody response)) (\<lambda>data.
        pure (processedData data))))))"

text \<open>\<open>formatSearchResults\<close>: the body of its \<open>forEach\<close>, the loop, the function.\<close>

definition formatPackage :: "host \<Rightarrow> jstring \<Rightarrow> NpmPackageInfo \<Rightarrow> js_error + jstring" where
  "formatPackage h output pkg =
     bindE (toStringJS h (name pkg)) (\<lambda>n.
     bindE (toStringJS h (version pkg)) (\<lambda>v.
     let output = output @ box @ ascii '' '' @ n @ ascii ''@'' @ v @ nl in
     bindE (if truthy (description pkg)
            then bindE (toStringJS h (description pkg)) (\<lambda>d.
                   Inr (output @ ascii ''   Description: '' @ d @ nl))
            else Inr output) (\<lambda>output.
     bindE (if truthy (author pkg)
            then bindE (toStringJS h (author pkg)) (\<lambda>a. Inr (output @ ascii ''   Author: '' @ a @ nl))
            else Inr output) (\<lambda>output.
       Inr (output @ nl)))))"

fun formatPackages :: "host \<Rightarrow> jstring \<Rightarrow> NpmPackageInfo list \<Rightarrow> js_error + jstring" where
  "formatPackages h output [] = Inr output"
| "formatPackages h output (pkg # pkgs) =
     bindE (formatPackage h output pkg) (\<lambda>output. formatPackages h output pkgs)"

definition formatSearchResults :: "host \<Rightarrow> NpmSearchResult \<Rightarrow> js_error + jstring" where
  "formatSearchResults h results =
     (if length (packages results) = 0 then Inr (ascii ''No packages found.'')
      else
        bindE (toStringJS h (totalResults results)) (\<lambda>t.
          formatPackages h
            (ascii ''Found '' @ t @ ascii '' packages (showing ''
               @ showNat (length (packages results)) @ ascii ''):'' @ nl @ nl)
            (packages results)))"

section \<open>NpmCheckUpdatesHandler\<close>

text \<open>
  The validated arguments of the six update tools, as their zod schemas give them: a
  field a schema does not declare is stripped, so it is absent (\<open>None\<close>).
\<close>

record UpdateArgs =
  packagePath :: "jstring option"
  filterArg :: "jstring list option"
  reject :: "jstring list option"
  target :: "jstring option"
  upgradeType :: "jstring option"
  peer :: "bool option"
  minimal :: "bool option"
  upgrade :: "bool option"
  removeRange :: "bool option"
  packageManager :: "jstring option"
  doctorInstall :: "jstring option"
  doctorTest :: "jstring option"

record NcuReport =
  data :: jsvalue
  message :: jstring

text \<open>\<open>packagePath || 'package.json'\<close>.\<close>

definition manifestName :: "jstring option \<Rightarrow> jstring" where
  "manifestName p = (case p of Some s \<Rightarrow> (if s \<noteq> [] then s else ascii ''package.json'') | None \<Rightarrow> ascii ''package.json'')"

definition resolvePackagePath :: "host \<Rightarrow> jstring option \<Rightarrow> jstring task" where
  "resolvePackagePath h p =
     (let resolvedPath = pathResolve h (manifestName p)
      in ([ExistsSync resolvedPath],
          if \<not> existsSync h resolvedPath
          then Inl (Error (ascii ''Package file not found: '' @ resolvedPath))
          else Inr resolvedPath))"

text \<open>
  The options of \<open>ncu.run\<close> are an object. \<open>process.stderr\<close>, a stream and no JSON value,
  is written as the string that names it.
\<close>

definition ncuOptionsOf :: "(jstring \<times> jsvalue) list \<Rightarrow> (jstring \<times> jsvalue) list" where
  "ncuOptionsOf baseOptions =
     spread baseOptions
       [(ascii ''jsonUpgraded'', JBool True), (ascii ''silent'', JBool True),
        (ascii ''stdout'', JStr (ascii ''process.stderr'')),
        (ascii ''stderr'', JStr (ascii ''process.stderr'')),
        (ascii ''loglevel'', JStr (ascii ''silent'')), (ascii ''json'', JBool True)]"

definition runNcu :: "host \<Rightarrow> (jstring \<times> jsvalue) list \<Rightarrow> jsvalue task" where
  "runNcu h baseOptions =
     (let ncuOptions = ncuOptionsOf baseOptions
      in ([NcuRun ncuOptions],
          case ncuRun h ncuOptions of
            Inl e \<Rightarrow> Inl (Error (ascii ''NCU execution failed: '' @ errorMessage e))
          | Inr v \<Rightarrow> Inr (if truthy v then v else JObj [])))"

text \<open>
  \<open>if (options.k) ncuBaseOptions.k = ...\<close>, for a flag, a string and a list of strings:
  \<open>true\<close>, a string that is not empty and any array are truthy.
\<close>

definition setFlag :: "string \<Rightarrow> bool option \<Rightarrow> (jstring \<times> jsvalue) list \<Rightarrow> (jstring \<times> jsvalue) list" where
  "setFlag k b obj = (if b = Some True then AList.update (ascii k) (JBool True) obj else obj)"

definition setString :: "string \<Rightarrow> jstring option \<Rightarrow> (jstring \<times> jsvalue) list \<Rightarrow> (jstring \<times> jsvalue) list" where
  "setString k s obj =
     (case s of Some t \<Rightarrow> (if t \<noteq> [] then AList.update (ascii k) (JStr t) obj else obj) | None \<Rightarrow> obj)"

definition setStrings :: "string \<Rightarrow> jstring list option \<Rightarrow> (jstring \<times> jsvalue) list \<Rightarrow> (jstring \<times> jsvalue) list" where
  "setStrings k ss obj =
     (case ss of Some ts \<Rightarrow> AList.update (ascii k) (JArr (map JStr ts)) obj | None \<Rightarrow> obj)"

text \<open>\<open>Object.keys(result).length\<close>, and the \<open>{ data, message }\<close> a handler returns.\<close>

definition countKeys :: "jsvalue \<Rightarrow> nat task" where
  "countKeys result = pure (bindE (objectKeys result) (\<lambda>ks. Inr (length ks)))"

definition report :: "jsvalue \<Rightarrow> jstring \<Rightarrow> NcuReport task" where
  "report result m = pure (Inr \<lparr>data = result, message = m\<rparr>)"

definition checkUpdates :: "host \<Rightarrow> UpdateArgs \<Rightarrow> NcuReport task" where
  "checkUpdates h options =
     andThen (resolvePackagePath h (packagePath options)) (\<lambda>packageFile.
     let ncuBaseOptions = [(ascii ''packageFile'', JStr packageFile)];
         ncuBaseOptions = setStrings ''filter'' (filterArg options) ncuBaseOptions;
         ncuBaseOptions = setStrings ''reject'' (reject options) ncuBaseOptions;
         ncuBaseOptions = setString ''target'' (target options) ncuBaseOptions;
         ncuBaseOptions = setFlag ''peer'' (peer options) ncuBaseOptions;
         ncuBaseOptions = setFlag ''minimal'' (minimal options) ncuBaseOptions;
         ncuBaseOptions = setString ''packageManager'' (packageManager options) ncuBaseOptions
     in andThen (runNcu h ncuBaseOptions) (\<lambda>result.
        andThen (countKeys result) (\<lambda>numUpdates.
        report result
          (if numUpdates > 0 then ascii ''Found '' @ showNat numUpdates @ ascii '' outdated dependencies.''
           else ascii ''All dependencies are up-to-date.''))))"

definition upgradePackages :: "host \<Rightarrow> UpdateArgs \<Rightarrow> NcuReport task" where
  "upgradePackages h options =
     andThen (resolvePackagePath h (packagePath options)) (\<lambda>packageFile.
     let ncuBaseOptions = [(ascii ''packageFile'', JStr packageFile), (ascii ''upgrade'', JBool True)];
         ncuBaseOptions = setString ''target'' (upgradeType options) ncuBaseOptions;
         ncuBaseOptions = setFlag ''peer'' (peer options) ncuBaseOptions;
         ncuBaseOptions = setFlag ''minimal'' (minimal options) ncuBaseOptions;
         ncuBaseOptions = setString ''packageManager'' (packageManager options) ncuBaseOptions
     in andThen (runNcu h ncuBaseOptions) (\<lambda>result.
        andThen (countKeys result) (\<lambda>numUpgraded.
        report result
          (if numUpgraded > 0 then ascii ''Upgraded '' @ showNat numUpgraded @ ascii '' dependencies.''
           else ascii ''No dependencies needed upgrading or were upgraded.''))))"

definition filterUpdates :: "host \<Rightarrow> UpdateArgs \<Rightarrow> NcuReport task" where
  "filterUpdates h options =
     andThen (resolvePackagePath h (packagePath options)) (\<lambda>packageFile.
     let ncuBaseOptions = [(ascii ''packageFile'', JStr packageFile),
                           (ascii ''filter'', case filterArg options of Some f \<Rightarrow> JArr (map JStr f) | None \<Rightarrow> JUndefined)];
         ncuBaseOptions = setFlag ''upgrade'' (upgrade options) ncuBaseOptions;
         ncuBaseOptions = setFlag ''minimal'' (minimal options) ncuBaseOptions;
         ncuBaseOptions = setString ''packageManager'' (packageManager options) ncuBaseOptions
     in andThen (runNcu h ncuBaseOptions) (\<lambda>result.
        andThen (countKeys result) (\<lambda>numFound.
        report result
          (if numFound > 0
           then ascii ''Found '' @ showNat numFound @ ascii '' filtered dependencies ''
                  @ (if upgrade options = Some True then ascii ''and upgraded them.''
                     else ascii ''with available updates.'')
           else ascii ''No updates found for the filtered dependencies.''))))"

definition resolveConflicts :: "host \<Rightarrow> UpdateArgs \<Rightarrow> NcuReport task" where
  "resolveConflicts h options =
     andThen (resolvePackagePath h (packagePath options)) (\<lambda>packageFile.
     let ncuBaseOptions = [(ascii ''packageFile'', JStr packageFile), (ascii ''peer'', JBool True)];
         ncuBaseOptions = setFlag ''upgrade'' (upgrade options) ncuBaseOptions;
         ncuBaseOptions = setFlag ''minimal'' (minimal options) ncuBaseOptions;
         ncuBaseOptions = setString ''packageManager'' (packageManager options) ncuBaseOptions
     in andThen (runNcu h ncuBaseOptions) (\<lambda>result.
        andThen (countKeys result) (\<lambda>numResolved.
        report result
          (if numResolved > 0
           then ascii ''Attempted to resolve conflicts for '' @ showNat numResolved
                  @ ascii '' dependencies using the '' @ quote @ ascii ''peer'' @ quote @ ascii '' strategy ''
                  @ (if upgrade options = Some True then ascii ''and applied changes.'' else ascii ''.'')
           else ascii ''No conflicts found or resolved based on peer strategy.''))))"

definition setVersionConstraints :: "host \<Rightarrow> UpdateArgs \<Rightarrow> NcuReport task" where
  "setVersionConstraints h options =
     andThen (resolvePackagePath h (packagePath options)) (\<lambda>packageFile.
     let ncuBaseOptions = [(ascii ''packageFile'', JStr packageFile),
                           (ascii ''target'', case target options of Some t \<Rightarrow> JStr t | None \<Rightarrow> JUndefined)];
         ncuBaseOptions = setFlag ''removeRange'' (removeRange options) ncuBaseOptions;
         ncuBaseOptions = setFlag ''upgrade'' (upgrade options) ncuBaseOptions;
         ncuBaseOptions = setFlag ''minimal'' (minimal options) ncuBaseOptions;
         ncuBaseOptions = setString ''packageManager'' (packageManager options) ncuBaseOptions
     in andThen (runNcu h ncuBaseOptions) (\<lambda>result.
        andThen (countKeys result) (\<lambda>numChanged.
        report result
          (if numChanged > 0
           then ascii ''Applied version constraints to '' @ showNat numChanged @ ascii '' dependencies ''
                  @ (if upgrade options = Some True then ascii ''and updated package.json.''
                     else ascii '' (dry run).'')
           else ascii ''No dependencies required changes based on the version constraints.''))))"

text \<open>\<open>typeof result === 'object'\<close>, for a value that is not \<open>null\<close>.\<close>

definition isObject :: "jsvalue \<Rightarrow> bool" where
  "isObject v = (case v of JObj kvs \<Rightarrow> True | JArr xs \<Rightarrow> True | _ \<Rightarrow> False)"

definition runDoctor :: "host \<Rightarrow> UpdateArgs \<Rightarrow> NcuReport task" where
  "runDoctor h options =
     andThen (resolvePackagePath h (packagePath options)) (\<lambda>packageFile.
     let ncuBaseOptions = [(ascii ''packageFile'', JStr packageFile), (ascii ''doctor'', JBool True),
                           (ascii ''upgrade'', JBool True)];
         ncuBaseOptions = setString ''doctorInstall'' (doctorInstall options) ncuBaseOptions;
         ncuBaseOptions = setString ''doctorTest'' (doctorTest options) ncuBaseOptions;
         ncuBaseOptions = setString ''packageManager'' (packageManager options) ncuBaseOptions
     in andThen (runNcu h ncuBaseOptions) (\<lambda>result.
        andThen (pure (objectEntries result)) (\<lambda>outcomes.
        if isObject result \<and> length outcomes = 0
        then report (JObj [])
               (ascii ''Doctor mode completed. No breaking upgrades found or all dependencies are up-to-date.'')
        else
          let workingUpgrades = (if isObject result then length (filter (\<lambda>(k, outcome). outcome = JBool True) outcomes) else 0);
              brokenUpgrades = (if isObject result then length (filter (\<lambda>(k, outcome). outcome \<noteq> JBool True) outcomes) else 0)
          in report result
               (ascii ''Doctor mode completed: '' @ showNat workingUpgrades
                  @ ascii '' working upgrades applied, '' @ showNat brokenUpgrades
                  @ ascii '' breaking upgrades identified.''))))"

section \<open>The zod schemas of the tool inputs\<close>

text \<open>
  \<open>safeParse\<close> of each schema: \<open>None\<close> where it fails. A \<open>z.object\<close> accepts an object
  only (no array, no \<open>null\<close>, no missing argument bag) and strips the keys it does not
  declare; an optional field accepts its type or \<open>undefined\<close>.
\<close>

definition zString :: "jsvalue \<Rightarrow> jstring option" where
  "zString v = (case v of JStr s \<Rightarrow> Some s | _ \<Rightarrow> None)"

definition zOptional :: "(jsvalue \<Rightarrow> 'a option) \<Rightarrow> jsvalue \<Rightarrow> 'a option option" where
  "zOptional z v = (if v = JUndefined then Some None else map_option Some (z v))"

definition zBoolean :: "jsvalue \<Rightarrow> bool option" where
  "zBoolean v = (case v of JBool b \<Rightarrow> Some b | _ \<Rightarrow> None)"

definition zNumber :: "jsvalue \<Rightarrow> rat option" where
  "zNumber v = (case v of JNum q \<Rightarrow> Some q | _ \<Rightarrow> None)"

definition zEnum :: "string list \<Rightarrow> jsvalue \<Rightarrow> jstring option" where
  "zEnum names v = (case v of JStr s \<Rightarrow> (if s \<in> set (map ascii names) then Some s else None) | _ \<Rightarrow> None)"

fun zAll :: "(jsvalue \<Rightarrow> 'a option) \<Rightarrow> jsvalue list \<Rightarrow> 'a list option" where
  "zAll z [] = Some []"
| "zAll z (x # xs) = Option.bind (z x) (\<lambda>y. Option.bind (zAll z xs) (\<lambda>ys. Some (y # ys)))"

definition zArray :: "(jsvalue \<Rightarrow> 'a option) \<Rightarrow> jsvalue \<Rightarrow> 'a list option" where
  "zArray z v = (case v of JArr xs \<Rightarrow> zAll z xs | _ \<Rightarrow> None)"

definition zObject :: "jsvalue \<Rightarrow> (jstring \<times> jsvalue) list option" where
  "zObject v = (case v of JObj kvs \<Rightarrow> Some kvs | _ \<Rightarrow> None)"

definition PackageManagerEnum :: "jsvalue \<Rightarrow> jstring option" where
  "PackageManagerEnum = zEnum [''npm'', ''yarn'', ''pnpm'', ''deno'', ''bun'', ''staticRegistry'']"

definition NcuTargetEnum :: "jsvalue \<Rightarrow> jstring option" where
  "NcuTargetEnum = zEnum [''latest'', ''newest'', ''greatest'', ''minor'', ''patch'', ''semver'']"

definition SearchNpmSchema :: "jsvalue \<Rightarrow> SearchNpmArgs option" where
  "SearchNpmSchema args =
     Option.bind (zObject args) (\<lambda>bag.
     Option.bind (zString (field bag ''query'')) (\<lambda>q.
     Option.bind (zOptional zNumber (field bag ''maxResults'')) (\<lambda>m.
       Some \<lparr>query = q, maxResults = (case m of Some n \<Rightarrow> n | None \<Rightarrow> 10)\<rparr>)))"

definition FetchPackageContentSchema :: "host \<Rightarrow> jsvalue \<Rightarrow> FetchPackageContentArgs option" where
  "FetchPackageContentSchema h args =
     Option.bind (zObject args) (\<lambda>bag.
     Option.bind (zString (field bag ''url'')) (\<lambda>u.
       if validUrl h u then Some \<lparr>url = u\<rparr> else None))"

definition GetPackageVersionsSchema :: "jsvalue \<Rightarrow> GetPackageArgs option" where
  "GetPackageVersionsSchema args =
     Option.bind (zObject args) (\<lambda>bag.
     Option.bind (zString (field bag ''packageName'')) (\<lambda>n. Some \<lparr>packageName = n\<rparr>))"

definition GetPackageDetailsSchema :: "jsvalue \<Rightarrow> GetPackageArgs option" where
  "GetPackageDetailsSchema args =
     Option.bind (zObject args) (\<lambda>bag.
     Option.bind (zString (field bag ''packageName'')) (\<lambda>n. Some \<lparr>packageName = n\<rparr>))"

definition noArgs :: UpdateArgs where
  "noArgs = \<lparr>packagePath = None, filterArg = None, reject = None, target = None,
     upgradeType = None, peer = None, minimal = None, upgrade = None, removeRange = None,
     packageManager = None, doctorInstall = None, doctorTest = None\<rparr>"

definition CheckUpdatesSchema :: "jsvalue \<Rightarrow> UpdateArgs option" where
  "CheckUpdatesSchema args =
     Option.bind (zObject args) (\<lambda>bag.
     Option.bind (zOptional zString (field bag ''packagePath'')) (\<lambda>pp.
     Option.bind (zOptional (zArray zString) (field bag ''filter'')) (\<lambda>f.
     Option.bind (zOptional (zArray zString) (field bag ''reject'')) (\<lambda>r.
     Option.bind (zOptional NcuTargetEnum (field bag ''target'')) (\<lambda>t.
     Option.bind (zOptional zBoolean (field bag ''peer'')) (\<lambda>p.
     Option.bind (zOptional zBoolean (field bag ''minimal'')) (\<lambda>m.
     Option.bind (zOptional PackageManagerEnum (field bag ''packageManager'')) (\<lambda>pm.
       Some (noArgs\<lparr>packagePath := pp, filterArg := f, reject := r, target := t, peer := p,
                    minimal := m, packageManager := pm\<rparr>)))))))))"

definition UpgradePackagesSchema :: "jsvalue \<Rightarrow> UpdateArgs option" where
  "UpgradePackagesSchema args =
     Option.bind (zObject args) (\<lambda>bag.
     Option.bind (zOptional zString (field bag ''packagePath'')) (\<lambda>pp.
     Option.bind (zOptional NcuTargetEnum (field bag ''upgradeType'')) (\<lambda>t.
     Option.bind (zOptional zBoolean (field bag ''peer'')) (\<lambda>p.
     Option.bind (zOptional zBoolean (field bag ''minimal'')) (\<lambda>m.
     Option.bind (zOptional PackageManagerEnum (field bag ''packageManager'')) (\<lambda>pm.
       Some (noArgs\<lparr>packagePath := pp, upgradeType := t, peer := p, minimal := m,
                    packageManager := pm\<rparr>)))))))"

definition FilterUpdatesSchema :: "jsvalue \<Rightarrow> UpdateArgs option" where
  "FilterUpdatesSchema args =
     Option.bind (zObject args) (\<lambda>bag.
     Option.bind (zOptional zString (field bag ''packagePath'')) (\<lambda>pp.
     Option.bind (zArray zString (field bag ''filter'')) (\<lambda>f.
     Option.bind (zOptional zBoolean (field bag ''upgrade'')) (\<lambda>u.
     Option.bind (zOptional zBoolean (field bag ''minimal'')) (\<lambda>m.
     Option.bind (zOptional PackageManagerEnum (field bag ''packageManager'')) (\<lambda>pm.
       if length f < 1 then None
       else Some (noArgs\<lparr>packagePath := pp, filterArg := Some f, upgrade := u, minimal := m,
                         packageManager := pm\<rparr>)))))))"

definition ResolveConflictsSchema :: "jsvalue \<Rightarrow> UpdateArgs option" where
  "ResolveConflictsSchema args =
     Option.bind (zObject args) (\<lambda>bag.
     Option.bind (zOptional zString (field bag ''packagePath'')) (\<lambda>pp.
     Option.bind (zOptional zBoolean (field bag ''upgrade'')) (\<lambda>u.
     Option.bind (zOptional zBoolean (field bag ''minimal'')) (\<lambda>m.
     Option.bind (zOptional PackageManagerEnum (field bag ''packageManager'')) (\<lambda>pm.
       Some (noArgs\<lparr>packagePath := pp, upgrade := u, minimal := m, packageManager := pm\<rparr>))))))"

definition SetVersionConstraintsSchema :: "jsvalue \<Rightarrow> UpdateArgs option" where
  "SetVersionConstraintsSchema args =
     Option.bind (zObject args) (\<lambda>bag.
     Option.bind (zOptional zString (field bag ''packagePath'')) (\<lambda>pp.
     Option.bind (NcuTargetEnum (field bag ''target'')) (\<lambda>t.
     Option.bind (zOptional zBoolean (field bag ''removeRange'')) (\<lambda>rr.
     Option.bind (zOptional zBoolean (field bag ''upgrade'')) (\<lambda>u.
     Option.bind (zOptional zBoolean (field bag ''minimal'')) (\<lambda>m.
     Option.bind (zOptional PackageManagerEnum (field bag ''packageManager'')) (\<lambda>pm.
       Some (noArgs\<lparr>packagePath := pp, target := Some t, removeRange := rr, upgrade := u,
                    minimal := m, packageManager := pm\<rparr>))))))))"

definition RunDoctorSchema :: "jsvalue \<Rightarrow> UpdateArgs option" where
  "RunDoctorSchema args =
     Option.bind (zObject args) (\<lambda>bag.
     Option.bind (zOptional zString (field bag ''packagePath'')) (\<lambda>pp.
     Option.bind (zOptional zString (field bag ''doctorInstall'')) (\<lambda>di.
     Option.bind (zOptional zString (field bag ''doctorTest'')) (\<lambda>dt.
     Option.bind (zOptional PackageManagerEnum (field bag ''packageManager'')) (\<lambda>pm.
       Some (noArgs\<lparr>packagePath := pp, doctorInstall := di, doctorTest := dt,
                    packageManager := pm\<rparr>))))))"

section \<open>The tool dispatcher\<close>

record ToolResult =
  content :: "(jstring \<times> jstring) list"
  isError :: "bool option"

text \<open>\<open>{ content: [{ type: "text", text: t }] }\<close>.\<close>

definition textResult :: "jstring \<Rightarrow> ToolResult" where
  "textResult t = \<lparr>content = [(ascii ''text'', t)], isError = None\<rparr>"

text \<open>The names the \<open>ListToolsRequestSchema\<close> handler declares.\<close>

definition toolNames :: "jstring list" where
  "toolNames = map ascii
     [''search_npm'', ''fetch_package_content'', ''get_package_versions'', ''get_package_details'',
      ''check_updates'', ''upgrade_packages'', ''filter_updates'', ''resolve_conflicts'',
      ''set_version_constraints'', ''run_doctor'']"

text \<open>
  \<open>new McpError(ErrorCode.InvalidParams, `Invalid arguments: ${parsedArgs.error.format()}`)\<close>:
  \<open>format()\<close> returns an object, which the template prints as \<open>[object Object]\<close>.
\<close>

definition invalidArguments :: js_error where
  "invalidArguments = McpError InvalidParams (ascii ''Invalid arguments: [object Object]'')"

definition reportResult :: "host \<Rightarrow> NcuReport \<Rightarrow> ToolResult task" where
  "reportResult h r = pure (Inr (textResult (message r @ nl @ nl @ stringify h (data r))))"

text \<open>
  The asynchronous function the handler of \<open>CallToolRequestSchema\<close> starts: the \<open>switch\<close>
  over the tool name. Its task is what the promise \<open>resultPromise\<close> settles to.
\<close>

definition resultPromise :: "host \<Rightarrow> jstring \<Rightarrow> jsvalue \<Rightarrow> ToolResult task" where
  "resultPromise h toolName args =
     (if toolName = ascii ''search_npm'' then
        (case SearchNpmSchema args of
           None \<Rightarrow> pure (Inl invalidArguments)
         | Some parsed \<Rightarrow>
             andThen (searchPackages h parsed) (\<lambda>results.
             andThen (pure (formatSearchResults h results)) (\<lambda>t. pure (Inr (textResult t)))))
      else if toolName = ascii ''fetch_package_content'' then
        (case FetchPackageContentSchema h args of
           None \<Rightarrow> pure (Inl invalidArguments)
         | Some parsed \<Rightarrow>
             andThen (fetchPackageContent h parsed) (\<lambda>t. pure (Inr (textResult t))))
      else if toolName = ascii ''get_package_versions'' then
        (case GetPackageVersionsSchema args of
           None \<Rightarrow> pure (Inl invalidArguments)
         | Some parsed \<Rightarrow>
             andThen (getPackageVersions h parsed) (\<lambda>versions.
             pure (Inr (textResult (formatVersions (packageName parsed) versions)))))
      else if toolName = ascii ''get_package_details'' then
        (case GetPackageDetailsSchema args of
           None \<Rightarrow> pure (Inl invalidArguments)
         | Some parsed \<Rightarrow>
             andThen (getPackageDetails h parsed) (\<lambda>details.
             pure (Inr (textResult (stringify h details)))))
      else if toolName = ascii ''check_updates'' then
        (case CheckUpdatesSchema args of
           None \<Rightarrow> pure (Inl invalidArguments)
         | Some parsed \<Rightarrow> andThen (checkUpdates h parsed) (reportResult h))
      else if toolName = ascii ''upgrade_packages'' then
        (case UpgradePackagesSchema args of
           None \<Rightarrow> pure (Inl invalidArguments)
         | Some parsed \<Rightarrow> andThen (upgradePackages h parsed) (reportResult h))
      else if toolName = ascii ''filter_updates'' then
        (case FilterUpdatesSchema args of
           None \<Rightarrow> pure (Inl invalidArguments)
         | Some parsed \<Rightarrow> andThen (filterUpdates h parsed) (reportResult h))
      else if toolName = ascii ''resolve_conflicts'' then
        (case ResolveConflictsSchema args of
           None \<Rightarrow> pure (Inl invalidArguments)
         | Some parsed \<Rightarrow>
             andThen (resolveConflicts h (parsed\<lparr>peer := Some True\<rparr>)) (reportResult h))
      else if toolName = ascii ''set_version_constraints'' then
        (case SetVersionConstraintsSchema args of
           None \<Rightarrow> pure (Inl invalidArguments)
         | Some parsed \<Rightarrow> andThen (setVersionConstraints h parsed) (reportResult h))
      else if toolName = ascii ''run_doctor'' then
        (case RunDoctorSchema args of
           None \<Rightarrow> pure (Inl invalidArguments)
         | Some parsed \<Rightarrow> andThen (runDoctor h parsed) (reportResult h))
      else pure (Inl (McpError MethodNotFound (ascii ''Unknown tool: '' @ toolName))))"

text \<open>
  The schema the \<open>switch\<close> parses the arguments with, for each of the six tools of
  \<open>NpmCheckUpdatesHandler\<close>.
\<close>

definition updateSchema :: "jstring \<Rightarrow> (jsvalue \<Rightarrow> UpdateArgs option) option" where
  "updateSchema toolName =
     (if toolName = ascii ''check_updates'' then Some CheckUpdatesSchema
      else if toolName = ascii ''upgrade_packages'' then Some UpgradePackagesSchema
      else if toolName = ascii ''filter_updates'' then Some FilterUpdatesSchema
      else if toolName = ascii ''resolve_conflicts'' then Some ResolveConflictsSchema
      else if toolName = ascii ''set_version_constraints'' then Some SetVersionConstraintsSchema
      else if toolName = ascii ''run_doctor'' then Some RunDoctorSchema
      else None)"

text \<open>
  \<open>Promise.race([resultPromise, timeoutPromise])\<close>. The event loop delivers the
  settlement of the handler's promise and the firing of the 30 s timer one after the
  other; the raced promise is pending (\<open>None\<close>) until the first of them and keeps what it
  settled to from then on.
\<close>

datatype race_event = HandlerSettled "js_error + ToolResult" | TimeoutFired

definition toolTimeout :: nat where
  "toolTimeout = 30000"

definition timeoutError :: js_error where
  "timeoutError = Error (ascii ''Tool execution timed out after '' @ showNat (toolTimeout div 1000) @ ascii ''s'')"

fun raceStep :: "(js_error + ToolResult) option \<Rightarrow> race_event \<Rightarrow> (js_error + ToolResult) option" where
  "raceStep None (HandlerSettled r) = Some r"
| "raceStep None TimeoutFired = Some (Inl timeoutError)"
| "raceStep (Some r) ev = Some r"

definition race :: "race_event list \<Rightarrow> (js_error + ToolResult) option" where
  "race evs = foldl raceStep None evs"

text \<open>
  What the handler of \<open>CallToolRequestSchema\<close> gives its caller: the result it returns, or
  the error it throws for the SDK to report. The \<open>catch\<close> rethrows an \<open>McpError\<close> and turns
  every other error into a result with \<open>isError: true\<close>.
\<close>

datatype response = Returned ToolResult | Thrown js_error

definition surface :: "js_error + ToolResult \<Rightarrow> response" where
  "surface r =
     (case r of
        Inr result \<Rightarrow> Returned result
      | Inl (McpError c m) \<Rightarrow> Thrown (McpError c m)
      | Inl e \<Rightarrow> Returned \<lparr>content = [(ascii ''text'', errorMessage e)], isError = Some True\<rparr>)"

text \<open>The response to a call, for the events of its race so far: \<open>None\<close> while it waits.\<close>

definition callTool :: "race_event list \<Rightarrow> response option" where
  "callTool evs = map_option surface (race evs)"





section \<open>RateLimiter\<close>

text \<open>
  The class's fields, with a waiter for every \<open>resolve\<close> callback in the queue, and the
  part of the event loop it uses: the times at which the pending \<open>setTimeout\<close> callbacks
  are due, and the log of the waiters resolved so far, each with the \<open>Date.now()\<close> of its
  resolution. Times are in milliseconds.
\<close>

record 'w RateLimiter =
  rateLimit :: rat
  queue :: "'w list"
  lastRequestTime :: int
  timers :: "rat list"
  resolved :: "('w \<times> int) list"

text \<open>
  \<open>new RateLimiter(requestsPerSecond)\<close>, for a budget that is not 0 (the repository
  constructs \<open>new RateLimiter(2)\<close>); the quotient of doubles is taken exactly.
\<close>

definition newRateLimiter :: "rat \<Rightarrow> 'w RateLimiter" where
  "newRateLimiter requestsPerSecond =
     \<lparr>rateLimit = 1000 / requestsPerSecond, queue = [], lastRequestTime = 0, timers = [], resolved = []\<rparr>"

definition processQueue :: "int \<Rightarrow> 'w RateLimiter \<Rightarrow> 'w RateLimiter" where
  "processQueue now s =
     (if length (queue s) = 0 then s
      else
        let timeSinceLastRequest = now - lastRequestTime s in
        if of_int timeSinceLastRequest \<ge> rateLimit s
        then s\<lparr>lastRequestTime := now, queue := tl (queue s),
               resolved := resolved s @ [(hd (queue s), now)]\<rparr>
        else s\<lparr>timers := timers s @ [of_int now + (rateLimit s - of_int timeSinceLastRequest)]\<rparr>)"

definition acquire :: "int \<Rightarrow> 'w \<Rightarrow> 'w RateLimiter \<Rightarrow> 'w RateLimiter" where
  "acquire now w s = processQueue now (s\<lparr>queue := queue s @ [w]\<rparr>)"

text \<open>
  What happens to a limiter: a caller acquires at a time, or the event loop runs the
  pending timer callback of an index at a time. No punctuality of the timers and no
  monotonicity of the clock is assumed. An index with no pending timer is no event.
\<close>

datatype 'w gate_event = AcquireAt int 'w | TimerAt int nat

fun gateStep :: "'w RateLimiter \<Rightarrow> 'w gate_event \<Rightarrow> 'w RateLimiter" where
  "gateStep s (AcquireAt now w) = acquire now w s"
| "gateStep s (TimerAt now i) =
     (if i < length (timers s)
      then processQueue now (s\<lparr>timers := take i (timers s) @ drop (Suc i) (timers s)\<rparr>)
      else s)"

definition gateRun :: "'w RateLimiter \<Rightarrow> 'w gate_event list \<Rightarrow> 'w RateLimiter" where
  "gateRun s evs = foldl gateStep s evs"

text \<open>The waiters of the \<open>acquire()\<close> calls of a run, in call order.\<close>

fun callers :: "'w gate_event list \<Rightarrow> 'w list" where
  "callers [] = []"
| "callers (AcquireAt now w # evs) = w # callers evs"
| "callers (TimerAt now i # evs) = callers evs"

text \<open>
  The invariant of a limiter: each resolution is at least the rate limit after the one
  before it, and \<open>lastRequestTime\<close> is the time of the last one.
\<close>

definition spaced :: "'w RateLimiter \<Rightarrow> bool" where
  "spaced s \<longleftrightarrow>
     successively (\<lambda>a b. rateLimit s \<le> of_int (b - a)) (map snd (resolved s))
     \<and> (resolved s \<noteq> [] \<longrightarrow> lastRequestTime s = snd (last (resolved s)))"

section \<open>Well-formed registry payloads\<close>

text \<open>
  The shape of the registry's answers that the shaping relies on. A search response is an
  object whose \<open>objects\<close> is an array of objects, each with an object \<open>package\<close>, a
  maintenance score that is a number (or absent) and a date that is a string (or absent);
  every other field may be missing. A package document is an object whose \<open>versions\<close> is an
  object of objects; its \<open>time\<close> may be missing.
\<close>

definition isRecord :: "jsvalue \<Rightarrow> bool" where
  "isRecord v = (case v of JObj kvs \<Rightarrow> True | _ \<Rightarrow> False)"

definition primitive :: "jsvalue \<Rightarrow> bool" where
  "primitive v = (case v of JObj kvs \<Rightarrow> False | JArr xs \<Rightarrow> False | _ \<Rightarrow> True)"

definition wellFormedSearchObject :: "jsvalue \<Rightarrow> bool" where
  "wellFormedSearchObject obj =
     (isRecord obj \<and> isRecord (valueAt obj ''package'')
      \<and> primitive (valueAt (valueAt (valueAt obj ''score'') ''detail'') ''maintenance'')
      \<and> primitive (valueAt (valueAt obj ''package'') ''date''))"

definition wellFormedSearch :: "jsvalue \<Rightarrow> bool" where
  "wellFormedSearch payload =
     (case valueAt payload ''objects'' of
        JArr objs \<Rightarrow> isRecord payload \<and> list_all wellFormedSearchObject objs
      | _ \<Rightarrow> False)"

definition wellFormedDocument :: "jsvalue \<Rightarrow> bool" where
  "wellFormedDocument payload =
     (case valueAt payload ''versions'' of
        JObj vs \<Rightarrow> isRecord payload \<and> list_all (\<lambda>(ver, details). isRecord details) vs
      | _ \<Rightarrow> False)"

section \<open>Sample inputs\<close>

text \<open>Seventeen versions, newest first.\<close>

definition sampleVersions :: "jstring list" where
  "sampleVersions = map ascii [''4.1.0'', ''4.0.0'', ''3.9.0'', ''3.8.0'', ''3.7.0'', ''3.6.0'', ''3.5.0'', ''3.4.0'',
     ''3.3.0'', ''3.2.0'', ''3.1.0'', ''3.0.0'', ''2.2.0'', ''2.1.0'', ''2.0.0'', ''1.1.0'', ''1.0.0'']"

text \<open>A shaped search result of three packages out of forty-two.\<close>

definition samplePackages :: "NpmPackageInfo list" where
  "samplePackages =
     [\<lparr>name = JStr (ascii ''zod''), version = JStr (ascii ''4.1.0''),
       description = JStr (ascii ''TypeScript-first schema validation''),
       author = JStr (ascii ''Colin McDonnell''), homepage = JUndefined, repository = JUndefined,
       keywords' = JArr [], weeklyDownloads = JUndefined, lastPublish = JStr (ascii ''1/1/2025'')\<rparr>,
      \<lparr>name = JStr (ascii ''yup''), version = JStr (ascii ''1.6.1''),
       description = JStr (ascii ''Dead simple Object schema validation''),
       author = JUndefined, homepage = JUndefined, repository = JUndefined,
       keywords' = JArr [], weeklyDownloads = JUndefined, lastPublish = JStr (ascii ''1/1/2025'')\<rparr>,
      \<lparr>name = JStr (ascii ''joi''), version = JStr (ascii ''17.13.3''),
       description = JUndefined,
       author = JUndefined, homepage = JUndefined, repository = JUndefined,
       keywords' = JArr [], weeklyDownloads = JUndefined, lastPublish = JStr (ascii ''1/1/2025'')\<rparr>]"

definition sampleSearchResult :: NpmSearchResult where
  "sampleSearchResult = \<lparr>packages = samplePackages, totalResults = JNum 42\<rparr>"

text \<open>A search response of the registry: three objects, a total of forty-two.\<close>

definition sampleSearchResponse :: jsvalue where
  "sampleSearchResponse =
     JObj [(ascii ''objects'', JArr
              [JObj [(ascii ''package'', JObj [(ascii ''name'', JStr (ascii ''zod'')),
                                             (ascii ''version'', JStr (ascii ''4.1.0'')),
                                             (ascii ''description'', JStr (ascii ''TypeScript-first schema validation'')),
                                             (ascii ''author'', JObj [(ascii ''name'', JStr (ascii ''Colin McDonnell''))]),
                                             (ascii ''date'', JStr (ascii ''2025-01-01T00:00:00.000Z''))])],
               JObj [(ascii ''package'', JObj [(ascii ''name'', JStr (ascii ''yup'')),
                                             (ascii ''version'', JStr (ascii ''1.6.1'')),
                                             (ascii ''description'', JStr (ascii ''Dead simple Object schema validation''))])],
               JObj [(ascii ''package'', JObj [(ascii ''name'', JStr (ascii ''joi'')),
                                             (ascii ''version'', JStr (ascii ''17.13.3''))])]]),
           (ascii ''total'', JNum 42)]"

text \<open>
  A package document of the registry with twelve versions, each with fields the shaping
  drops, and the timestamps of the versions besides \<open>created\<close> and \<open>modified\<close>.
\<close>

definition sampleVersionKeys :: "jstring list" where
  "sampleVersionKeys = map ascii [''1.0.0'', ''1.1.0'', ''1.2.0'', ''1.3.0'', ''1.4.0'', ''1.5.0'',
     ''1.6.0'', ''1.7.0'', ''1.8.0'', ''1.9.0'', ''1.10.0'', ''1.11.0'']"

definition sampleVersionDoc :: "jstring \<Rightarrow> jsvalue" where
  "sampleVersionDoc v =
     JObj [(ascii ''name'', JStr (ascii ''zod'')), (ascii ''version'', JStr v),
           (ascii ''main'', JStr (ascii ''index.js'')),
           (ascii ''scripts'', JObj [(ascii ''test'', JStr (ascii ''vitest''))]),
           (ascii ''dist'', JObj [(ascii ''tarball'', JStr (ascii ''https://registry.npmjs.org/zod/-/zod.tgz''))]),
           (ascii ''dependencies'', JObj [])]"

definition samplePackageDoc :: jsvalue where
  "samplePackageDoc =
     JObj [(ascii ''name'', JStr (ascii ''zod'')),
           (ascii ''dist-tags'', JObj [(ascii ''latest'', JStr (ascii ''1.11.0''))]),
           (ascii ''versions'', JObj (map (\<lambda>v. (v, sampleVersionDoc v)) sampleVersionKeys)),
           (ascii ''time'', JObj ((ascii ''created'', JStr (ascii ''2020-03-07T00:00:00.000Z''))
              # (ascii ''modified'', JStr (ascii ''2025-01-01T00:00:00.000Z''))
              # map (\<lambda>v. (v, JStr (ascii ''2024-06-01T00:00:00.000Z''))) sampleVersionKeys)),
           (ascii ''readme'', JStr (ascii ''# zod''))]"

text \<open>
  A host: the registry answers the search with the sample response and every other URL
  with the sample document, the page has a long readme, and the only manifest is
  \<open>/work/package.json\<close>.
\<close>

definition sampleHost :: host where
  "sampleHost =
     \<lparr>numberText = (\<lambda>q. ascii ''0.5''),
      localeDate = (\<lambda>v. ascii ''1/1/2025''),
      uriComponent = (\<lambda>s. Inr s),
      validUrl = (\<lambda>s. True),
      stringify = (\<lambda>v. ascii ''{}''),
      pathResolve = (\<lambda>p. ascii ''/work/'' @ p),
      existsSync = (\<lambda>p. p = ascii ''/work/package.json''),
      fetch = (\<lambda>u. if u = REGISTRY_URL @ ascii ''/-/v1/search?text=zod&size=10''
                     then Response 200 (Inr sampleSearchResponse) (Inr [])
                     else Response 200 (Inr samplePackageDoc) (Inr (ascii ''<html></html>''))),
      pageRegions = (\<lambda>html. (ascii ''zod'', ascii ''4.1.0'', ascii ''TypeScript-first schema validation'',
                             replicate 5000 97)),
      ncuRun = (\<lambda>options. Inr (JObj [(ascii ''zod'', JStr (ascii ''4.1.0''))]))\<rparr>"

text \<open>
  Three callers acquire at time 0 from a fresh limiter of two requests per second; the
  event loop then runs each pending timer when it is due.
\<close>

definition sampleBurst :: "nat gate_event list" where
  "sampleBurst =
     [AcquireAt 0 1, AcquireAt 0 2, AcquireAt 0 3,
      TimerAt 500 0, TimerAt 500 0, TimerAt 500 0,
      TimerAt 1000 0, TimerAt 1000 0,
      TimerAt 1500 0]"

text \<open>A host whose registry answers every request with an empty object.\<close>

definition emptyAnswerHost :: host where
  "emptyAnswerHost = sampleHost\<lparr>fetch := (\<lambda>u. Response 200 (Inr (JObj [])) (Inr []))\<rparr>"

section \<open>Properties\<close>

lemma length_ascii [simp]: "length (ascii s) = length s"
  by (simp add: ascii_def)

lemma ascii_Nil_iff [simp]: "ascii s = [] \<longleftrightarrow> s = []"
  by (simp add: ascii_def)

lemma readNat_snoc: "readNat (s @ [d]) = 10 * readNat s + (unat d - 48)"
  by (simp add: readNat_def)

lemma unat_digit: "d < 10 \<Longrightarrow> unat (48 + word_of_nat d :: 16 word) = 48 + d"
proof -
  assume d: "d < 10"
  have "unat (word_of_nat (48 + d) :: 16 word) = (48 + d) mod 2 ^ 16"
    by (simp only: unat_of_nat len_bit0 len_num1 mult_1_right numeral_Bit0 [symmetric]) simp
  with d show ?thesis by simp
qed

lemma readNat_showNat: "readNat (showNat n) = n"
proof (induction n rule: showNat.induct)
  case (1 n)
  show ?case
  proof (cases "n < 10")
    case True
    then show ?thesis
      by (subst showNat.simps) (simp add: readNat_def unat_digit)
  next
    case False
    then have "readNat (showNat (n div 10)) = n div 10"
      using 1 by simp
    moreover have "unat (48 + word_of_nat (n mod 10) :: 16 word) = 48 + n mod 10"
      by (rule unat_digit) simp
    ultimately show ?thesis
      using False by (subst showNat.simps) (simp add: readNat_snoc)
  qed
qed

lemma showNat_not_Nil: "showNat n \<noteq> []"
  by (subst showNat.simps) simp

lemma split_no_comma:
  "44 \<notin> set v \<Longrightarrow> splitCommaSpace acc v = [acc @ v]"
  by (induction acc v rule: splitCommaSpace.induct) auto

lemma split_through:
  "44 \<notin> set v \<Longrightarrow> splitCommaSpace acc (v @ 44 # 32 # rest) = (acc @ v) # splitCommaSpace [] rest"
proof (induction v arbitrary: acc)
  case Nil
  then show ?case by simp
next
  case (Cons c v)
  then have c: "c \<noteq> 44" and v: "44 \<notin> set v" by auto
  show ?case
  proof (cases v)
    case Nil
    with c show ?thesis by simp
  next
    case (Cons d w)
    with c Cons.IH [OF v, of "acc @ [c]"] show ?thesis by simp
  qed
qed

lemma ascii_comma_space: "ascii '', '' = [44, 32]"
  by (simp add: ascii_def)

lemma split_join:
  "vs \<noteq> [] \<Longrightarrow> \<forall>v\<in>set vs. 44 \<notin> set v \<Longrightarrow> splitCommaSpace [] (join (ascii '', '') vs) = vs"
proof (induction vs)
  case Nil
  then show ?case by simp
next
  case (Cons x xs)
  show ?case
  proof (cases xs)
    case Nil
    with Cons.prems show ?thesis by (simp add: split_no_comma)
  next
    case (Cons y ys)
    with Cons.prems Cons.IH show ?thesis
      by (simp add: ascii_comma_space split_through)
  qed
qed

lemma moreVersions_not_Nil: "moreVersions n \<noteq> []"
  by (simp add: moreVersions_def nl_def)

subsection \<open>formatVersions\<close>

text \<open>
  C4. For every version list of length \<open>V\<close>, the output of \<open>formatVersions\<close> shows exactly
  \<open>min V 15\<close> version strings, the first ones of the list, and carries the suffix that
  says \<open>V - 15\<close> more versions exist if and only if \<open>V > 15\<close>. The empty list gives the
  message that no versions were found, which shows none. The shown line is the join of the
  first \<open>min V 15\<close> versions; where no version holds a comma, splitting that line at the
  separators gives exactly those strings back.
\<close>

theorem formatVersions_lists_first_15:
  "(versions = [] \<longrightarrow> formatVersions p versions = ascii ''No versions found for '' @ p @ ascii ''.'')
   \<and> (versions \<noteq> [] \<longrightarrow>
        (\<exists>line suffix.
           formatVersions p versions =
             box @ ascii '' '' @ p @ nl @ ascii ''Available versions (newest first):'' @ nl @ line @ suffix
           \<and> line = join (ascii '', '') (take (min (length versions) 15) versions)
           \<and> ((\<forall>v\<in>set versions. 44 \<notin> set v) \<longrightarrow>
                splitCommaSpace [] line = take 15 versions
                \<and> length (splitCommaSpace [] line) = min (length versions) 15)
           \<and> (suffix \<noteq> [] \<longleftrightarrow> 15 < length versions)
           \<and> (15 < length versions \<longrightarrow>
                (\<exists>digits. suffix = nl @ ascii ''...and '' @ digits @ ascii '' more versions''
                   \<and> readNat digits = length versions - 15))))"
proof (intro conjI impI)
  assume "versions = []"
  then show "formatVersions p versions = ascii ''No versions found for '' @ p @ ascii ''.''"
    by (simp add: formatVersions_def)
next
  assume ne: "versions \<noteq> []"
  define line where "line = join (ascii '', '') (take (min (length versions) 15) versions)"
  define suffix where "suffix = (if 15 < length versions then moreVersions (length versions - 15) else [])"
  have tk: "take (min (length versions) 15) versions = take 15 versions"
    by (simp add: min_def)
  have out: "formatVersions p versions =
      box @ ascii '' '' @ p @ nl @ ascii ''Available versions (newest first):'' @ nl @ line @ suffix"
    using ne by (simp add: formatVersions_def line_def suffix_def tk Let_def)
  have split: "splitCommaSpace [] line = take 15 versions
      \<and> length (splitCommaSpace [] line) = min (length versions) 15"
    if "\<forall>v\<in>set versions. 44 \<notin> set v"
  proof -
    have "take 15 versions \<noteq> []" using ne by (cases versions) simp_all
    moreover have "\<forall>v\<in>set (take 15 versions). 44 \<notin> set v"
      using that by (meson in_set_takeD)
    ultimately have "splitCommaSpace [] line = take 15 versions"
      unfolding line_def tk by (rule split_join)
    then show ?thesis by (simp add: min_def)
  qed
  have sfx: "suffix \<noteq> [] \<longleftrightarrow> 15 < length versions"
    by (simp add: suffix_def moreVersions_not_Nil)
  have digits: "\<exists>digits. suffix = nl @ ascii ''...and '' @ digits @ ascii '' more versions''
      \<and> readNat digits = length versions - 15" if "15 < length versions"
    using that by (intro exI [of _ "showNat (length versions - 15)"])
      (simp add: suffix_def moreVersions_def readNat_showNat)
  show "\<exists>line suffix.
           formatVersions p versions =
             box @ ascii '' '' @ p @ nl @ ascii ''Available versions (newest first):'' @ nl @ line @ suffix
           \<and> line = join (ascii '', '') (take (min (length versions) 15) versions)
           \<and> ((\<forall>v\<in>set versions. 44 \<notin> set v) \<longrightarrow>
                splitCommaSpace [] line = take 15 versions
                \<and> length (splitCommaSpace [] line) = min (length versions) 15)
           \<and> (suffix \<noteq> [] \<longleftrightarrow> 15 < length versions)
           \<and> (15 < length versions \<longrightarrow>
                (\<exists>digits. suffix = nl @ ascii ''...and '' @ digits @ ascii '' more versions''
                   \<and> readNat digits = length versions - 15))"
    using out split sfx digits line_def by blast
qed

theorem formatVersions_lists_first_15_witness:
  "\<exists>line suffix.
     formatVersions (ascii ''zod'') sampleVersions =
       box @ ascii '' zod'' @ nl @ ascii ''Available versions (newest first):'' @ nl @ line @ suffix
     \<and> splitCommaSpace [] line = take 15 sampleVersions
     \<and> length (splitCommaSpace [] line) = 15
     \<and> suffix \<noteq> []
     \<and> (\<exists>digits. suffix = nl @ ascii ''...and '' @ digits @ ascii '' more versions'' \<and> readNat digits = 2)"
proof -
  have ne: "sampleVersions \<noteq> []" and len: "length sampleVersions = 17"
    by (simp_all add: sampleVersions_def)
  have nc: "\<forall>v\<in>set sampleVersions. 44 \<notin> set v"
    by (simp add: sampleVersions_def ascii_def)
  from formatVersions_lists_first_15 [of sampleVersions "ascii ''zod''"] ne
  obtain line suffix where
    "formatVersions (ascii ''zod'') sampleVersions =
       box @ ascii '' '' @ ascii ''zod'' @ nl @ ascii ''Available versions (newest first):'' @ nl @ line @ suffix"
    "(\<forall>v\<in>set sampleVersions. 44 \<notin> set v) \<longrightarrow>
        splitCommaSpace [] line = take 15 sampleVersions
        \<and> length (splitCommaSpace [] line) = min (length sampleVersions) 15"
    "suffix \<noteq> [] \<longleftrightarrow> 15 < length sampleVersions"
    "15 < length sampleVersions \<longrightarrow>
        (\<exists>digits. suffix = nl @ ascii ''...and '' @ digits @ ascii '' more versions''
           \<and> readNat digits = length sampleVersions - 15)"
    by blast
  with nc len show ?thesis
    by (intro exI [of _ line] exI [of _ suffix]) (simp add: ascii_def)
qed

subsection \<open>fetchPackageContent\<close>

lemma length_truncationMarker: "length truncationMarker = 30"
  by (simp add: truncationMarker_def nl_def)

lemma packageContent_parts:
  "\<exists>head body.
     packageContent n v d readme =
       (if head @ body = [] then ascii ''No extractable content found.'' else head @ body)
     \<and> head = (if n \<noteq> [] then ascii ''Package: '' @ n @ nl else [])
              @ (if v \<noteq> [] then ascii ''Version: '' @ v @ nl else [])
              @ (if d \<noteq> [] then ascii ''Description: '' @ d @ nl @ nl else [])
     \<and> body = (if readme \<noteq> []
               then ascii ''README:'' @ nl @ take 4000 readme
                      @ (if 4000 < length readme
                         then ascii ''...'' @ nl @ ascii ''[README content truncated]'' else [])
               else [])
     \<and> length body \<le> 4038"
proof -
  have body: "readmeBody readme = take 4000 readme
      @ (if 4000 < length readme then ascii ''...'' @ nl @ ascii ''[README content truncated]'' else [])"
    by (simp add: readmeBody_def truncationMarker_def)
  have len: "length (readmeBody readme) \<le> 4030"
    using length_truncationMarker by (simp add: readmeBody_def)
  show ?thesis
    apply (intro exI conjI)
       prefer 2 apply (rule refl)
      prefer 2 apply (rule refl)
    subgoal by (simp add: packageContent_def Let_def body nl_def)
    subgoal using len by (simp add: body nl_def)
    done
qed

lemma fetchPackageContent_ok:
  assumes "fetch h (url a) = Response st js (Inr html)" and "200 \<le> st" and "st \<le> 299"
    and "pageRegions h html = (n, v, d, readme)"
  shows "fetchPackageContent h a = ([Acquire, Fetch (url a)], Inr (packageContent n v d readme))"
  using assms by (simp add: fetchPackageContent_def perform_def httpGet_def checkOk_def pure_def)

text \<open>
  C6. For every fetched package page (the fetch answers with a success status and a text
  body, from which cheerio extracts the four regions), the text \<open>fetchPackageContent\<close>
  produces is the concatenation of the package name, the version, the description and the
  readme body, each under its label and left out when empty. The body is the first 4000
  code units of the readme, with the truncation marker appended exactly when the readme
  is longer than 4000; so the body part of the output, label included, is never longer
  than 4038 code units, whatever the size of the page.
\<close>

theorem fetchPackageContent_body_capped:
  assumes "fetch h (url a) = Response st js (Inr html)" and "200 \<le> st" and "st \<le> 299"
    and "pageRegions h html = (n, v, d, readme)"
  shows "\<exists>head body.
     fetchPackageContent h a =
       ([Acquire, Fetch (url a)],
        Inr (if head @ body = [] then ascii ''No extractable content found.'' else head @ body))
     \<and> head = (if n \<noteq> [] then ascii ''Package: '' @ n @ nl else [])
              @ (if v \<noteq> [] then ascii ''Version: '' @ v @ nl else [])
              @ (if d \<noteq> [] then ascii ''Description: '' @ d @ nl @ nl else [])
     \<and> body = (if readme \<noteq> []
               then ascii ''README:'' @ nl @ take 4000 readme
                      @ (if 4000 < length readme
                         then ascii ''...'' @ nl @ ascii ''[README content truncated]'' else [])
               else [])
     \<and> length body \<le> 4038"
  using packageContent_parts [of n v d readme]
  unfolding fetchPackageContent_ok [OF assms] by simp

theorem fetchPackageContent_body_capped_witness:
  "\<exists>head body.
     fetchPackageContent sampleHost \<lparr>url = ascii ''https://www.npmjs.com/package/zod''\<rparr> =
       ([Acquire, Fetch (ascii ''https://www.npmjs.com/package/zod'')], Inr (head @ body))
     \<and> head = ascii ''Package: zod'' @ nl @ ascii ''Version: 4.1.0'' @ nl
                @ ascii ''Description: TypeScript-first schema validation'' @ nl @ nl
     \<and> body = ascii ''README:'' @ nl @ replicate 4000 97 @ ascii ''...'' @ nl @ ascii ''[README content truncated]''
     \<and> length body = 4038"
proof -
  let ?a = "\<lparr>url = ascii ''https://www.npmjs.com/package/zod''\<rparr>"
  have f: "fetch sampleHost (url ?a) = Response 200 (Inr samplePackageDoc) (Inr (ascii ''<html></html>''))"
    by (simp add: sampleHost_def REGISTRY_URL_def ascii_def)
  have r: "pageRegions sampleHost (ascii ''<html></html>'') =
      (ascii ''zod'', ascii ''4.1.0'', ascii ''TypeScript-first schema validation'', replicate 5000 97)"
    by (simp add: sampleHost_def)
  from fetchPackageContent_body_capped [OF f _ _ r]
  show ?thesis by (simp add: nl_def ascii_def)
qed

subsection \<open>formatSearchResults\<close>

lemma numberToString_nat: "n < 2 ^ 53 \<Longrightarrow> numberToString h (of_nat n) = showNat n"
proof -
  assume "n < 2 ^ 53"
  then have "(of_nat n :: rat) < of_nat (2 ^ 53)"
    by (simp only: of_nat_less_iff)
  then show ?thesis
    by (simp add: numberToString_def)
qed

lemma formatPackage_entry:
  assumes "name p = JStr n" and "version p = JStr v"
    and "description p = JUndefined \<or> (\<exists>d. description p = JStr d)"
    and "author p = JUndefined \<or> (\<exists>a. author p = JStr a)"
  shows "\<exists>rest. \<forall>out. formatPackage h out p = Inr (out @ box @ ascii '' '' @ n @ ascii ''@'' @ v @ nl @ rest)"
proof -
  have "\<exists>dl. \<forall>out. (if truthy (description p)
            then bindE (toStringJS h (description p)) (\<lambda>d.
                   Inr (out @ ascii ''   Description: '' @ d @ nl))
            else Inr out) = Inr (out @ dl)"
  proof (cases "description p")
    case (JStr s)
    show ?thesis
      by (rule exI [of _ "if s \<noteq> [] then ascii ''   Description: '' @ s @ nl else []"])
        (simp add: JStr)
  next
    case JUndefined
    then show ?thesis by (intro exI [of _ "[]"]) simp
  qed (use assms(3) in auto)
  then obtain dl where dl: "\<forall>out. (if truthy (description p)
            then bindE (toStringJS h (description p)) (\<lambda>d.
                   Inr (out @ ascii ''   Description: '' @ d @ nl))
            else Inr out) = Inr (out @ dl)" ..
  have "\<exists>al. \<forall>out. (if truthy (author p)
            then bindE (toStringJS h (author p)) (\<lambda>a. Inr (out @ ascii ''   Author: '' @ a @ nl))
            else Inr out) = Inr (out @ al)"
  proof (cases "author p")
    case (JStr s)
    show ?thesis
      by (rule exI [of _ "if s \<noteq> [] then ascii ''   Author: '' @ s @ nl else []"])
        (simp add: JStr)
  next
    case JUndefined
    then show ?thesis by (intro exI [of _ "[]"]) simp
  qed (use assms(4) in auto)
  then obtain al where al: "\<forall>out. (if truthy (author p)
            then bindE (toStringJS h (author p)) (\<lambda>a. Inr (out @ ascii ''   Author: '' @ a @ nl))
            else Inr out) = Inr (out @ al)" ..
  show ?thesis
    by (rule exI [of _ "dl @ al @ nl"]) (simp add: formatPackage_def assms(1,2) dl al)
qed

lemma formatPackages_entries:
  assumes "\<forall>p\<in>set ps. (\<exists>n v. name p = JStr n \<and> version p = JStr v)
      \<and> (description p = JUndefined \<or> (\<exists>d. description p = JStr d))
      \<and> (author p = JUndefined \<or> (\<exists>a. author p = JStr a))"
  shows "\<exists>entries. length entries = length ps
      \<and> (\<forall>out. formatPackages h out ps = Inr (out @ concat entries))
      \<and> (\<forall>i<length ps. \<exists>n v rest. name (ps ! i) = JStr n \<and> version (ps ! i) = JStr v
            \<and> entries ! i = box @ ascii '' '' @ n @ ascii ''@'' @ v @ nl @ rest)"
  using assms
proof (induction ps)
  case Nil
  then show ?case by simp
next
  case (Cons p ps)
  then obtain n v where nv: "name p = JStr n" "version p = JStr v" by auto
  with Cons.prems obtain rest where
    rest: "\<forall>out. formatPackage h out p = Inr (out @ box @ ascii '' '' @ n @ ascii ''@'' @ v @ nl @ rest)"
    using formatPackage_entry [of p n v h] by auto
  from Cons obtain entries where es: "length entries = length ps"
    "\<forall>out. formatPackages h out ps = Inr (out @ concat entries)"
    "\<forall>i<length ps. \<exists>n v rest. name (ps ! i) = JStr n \<and> version (ps ! i) = JStr v
            \<and> entries ! i = box @ ascii '' '' @ n @ ascii ''@'' @ v @ nl @ rest"
    by auto
  let ?e = "box @ ascii '' '' @ n @ ascii ''@'' @ v @ nl @ rest"
  have "\<forall>i<length (p # ps). \<exists>n v rest. name ((p # ps) ! i) = JStr n \<and> version ((p # ps) ! i) = JStr v
            \<and> (?e # entries) ! i = box @ ascii '' '' @ n @ ascii ''@'' @ v @ nl @ rest"
  proof (intro allI impI)
    fix i assume "i < length (p # ps)"
    then show "\<exists>n v rest. name ((p # ps) ! i) = JStr n \<and> version ((p # ps) ! i) = JStr v
            \<and> (?e # entries) ! i = box @ ascii '' '' @ n @ ascii ''@'' @ v @ nl @ rest"
      using nv es(3) by (cases i) auto
  qed
  moreover have "\<forall>out. formatPackages h out (p # ps) = Inr (out @ concat (?e # entries))"
    by (simp add: rest es(2))
  ultimately show ?case
    using es(1) by (intro exI [of _ "?e # entries"]) simp
qed

text \<open>
  C7. For a search result with at least one package, a total that is a non-negative
  integer (below \<open>2^53\<close>, where JavaScript prints its exact digits) and packages whose name and
  version are strings and whose description and author are strings or absent,
  \<open>formatSearchResults\<close> prints \<open>Found <total> packages (showing <count>):\<close>, the total
  being the upstream total and the count the length of the package list, followed by one
  entry per package in order, each starting with the line of its name and version. For a
  total of 42 and three packages the header is \<open>Found 42 packages (showing 3):\<close>. (An empty
  package list prints \<open>No packages found.\<close> and reports no count.)
\<close>

theorem formatSearchResults_reports_total_and_count:
  assumes "packages r \<noteq> []"
    and "totalResults r = JNum (of_nat tot)" and "tot < 2 ^ 53"
    and "\<forall>p\<in>set (packages r). (\<exists>n v. name p = JStr n \<and> version p = JStr v)
      \<and> (description p = JUndefined \<or> (\<exists>d. description p = JStr d))
      \<and> (author p = JUndefined \<or> (\<exists>a. author p = JStr a))"
  shows "\<exists>entries.
      formatSearchResults h r =
        Inr (ascii ''Found '' @ showNat tot @ ascii '' packages (showing ''
               @ showNat (length (packages r)) @ ascii ''):'' @ nl @ nl @ concat entries)
      \<and> length entries = length (packages r)
      \<and> (\<forall>i<length (packages r). \<exists>n v rest.
            name (packages r ! i) = JStr n \<and> version (packages r ! i) = JStr v
            \<and> entries ! i = box @ ascii '' '' @ n @ ascii ''@'' @ v @ nl @ rest)"
proof -
  from formatPackages_entries [OF assms(4), of h] obtain entries where es:
    "length entries = length (packages r)"
    "\<forall>out. formatPackages h out (packages r) = Inr (out @ concat entries)"
    "\<forall>i<length (packages r). \<exists>n v rest. name (packages r ! i) = JStr n \<and> version (packages r ! i) = JStr v
            \<and> entries ! i = box @ ascii '' '' @ n @ ascii ''@'' @ v @ nl @ rest"
    by blast
  have "formatSearchResults h r =
        Inr (ascii ''Found '' @ showNat tot @ ascii '' packages (showing ''
               @ showNat (length (packages r)) @ ascii ''):'' @ nl @ nl @ concat entries)"
    using assms(1) by (simp add: formatSearchResults_def assms(2) numberToString_nat [OF assms(3)] es(2))
  with es(1,3) show ?thesis by blast
qed

text \<open>
  The sample search result is what \<open>searchPackages\<close> makes of the sample response of the
  registry.
\<close>

lemma sampleSearchResponse_shaped:
  "searchResultOf sampleHost sampleSearchResponse = Inr sampleSearchResult"
  by (simp add: searchResultOf_def sampleSearchResponse_def sampleSearchResult_def samplePackages_def
      get_def mapPackage_def packageField_def getOpt_def nullish_def datePrimitive_def sampleHost_def
      ascii_def)

theorem formatSearchResults_reports_total_and_count_witness:
  "searchResultOf sampleHost sampleSearchResponse = Inr sampleSearchResult
   \<and> (\<exists>entries.
      formatSearchResults sampleHost sampleSearchResult =
        Inr (ascii ''Found 42 packages (showing 3):'' @ nl @ nl @ concat entries)
      \<and> length entries = 3
      \<and> (\<exists>rest. entries ! 0 = box @ ascii '' zod@4.1.0'' @ nl @ rest)
      \<and> (\<exists>rest. entries ! 1 = box @ ascii '' yup@1.6.1'' @ nl @ rest)
      \<and> (\<exists>rest. entries ! 2 = box @ ascii '' joi@17.13.3'' @ nl @ rest))"
proof -
  have "\<exists>entries.
      formatSearchResults sampleHost sampleSearchResult =
        Inr (ascii ''Found '' @ showNat 42 @ ascii '' packages (showing ''
               @ showNat (length (packages sampleSearchResult)) @ ascii ''):'' @ nl @ nl @ concat entries)
      \<and> length entries = length (packages sampleSearchResult)
      \<and> (\<forall>i<length (packages sampleSearchResult). \<exists>n v rest.
            name (packages sampleSearchResult ! i) = JStr n \<and> version (packages sampleSearchResult ! i) = JStr v
            \<and> entries ! i = box @ ascii '' '' @ n @ ascii ''@'' @ v @ nl @ rest)"
    by (rule formatSearchResults_reports_total_and_count)
      (simp_all add: sampleSearchResult_def samplePackages_def)
  then obtain entries where es:
    "formatSearchResults sampleHost sampleSearchResult =
        Inr (ascii ''Found '' @ showNat 42 @ ascii '' packages (showing ''
               @ showNat (length (packages sampleSearchResult)) @ ascii ''):'' @ nl @ nl @ concat entries)"
    "length entries = length (packages sampleSearchResult)"
    "\<forall>i<length (packages sampleSearchResult). \<exists>n v rest.
            name (packages sampleSearchResult ! i) = JStr n \<and> version (packages sampleSearchResult ! i) = JStr v
            \<and> entries ! i = box @ ascii '' '' @ n @ ascii ''@'' @ v @ nl @ rest"
    by blast
  have len: "length (packages sampleSearchResult) = 3"
    by (simp add: sampleSearchResult_def samplePackages_def)
  have "\<exists>rest. entries ! 0 = box @ ascii '' zod@4.1.0'' @ nl @ rest"
    using es(3) [rule_format, of 0] by (simp add: sampleSearchResult_def samplePackages_def ascii_def)
  moreover have "\<exists>rest. entries ! 1 = box @ ascii '' yup@1.6.1'' @ nl @ rest"
    using es(3) [rule_format, of 1] by (simp add: sampleSearchResult_def samplePackages_def ascii_def)
  moreover have "\<exists>rest. entries ! 2 = box @ ascii '' joi@17.13.3'' @ nl @ rest"
    using es(3) [rule_format, of 2] by (simp add: sampleSearchResult_def samplePackages_def ascii_def)
  moreover have "formatSearchResults sampleHost sampleSearchResult =
        Inr (ascii ''Found 42 packages (showing 3):'' @ nl @ nl @ concat entries)"
    using es(1) by (simp add: len showNat.simps ascii_def)
  ultimately have "\<exists>entries.
      formatSearchResults sampleHost sampleSearchResult =
        Inr (ascii ''Found 42 packages (showing 3):'' @ nl @ nl @ concat entries)
      \<and> length entries = 3
      \<and> (\<exists>rest. entries ! 0 = box @ ascii '' zod@4.1.0'' @ nl @ rest)
      \<and> (\<exists>rest. entries ! 1 = box @ ascii '' yup@1.6.1'' @ nl @ rest)
      \<and> (\<exists>rest. entries ! 2 = box @ ascii '' joi@17.13.3'' @ nl @ rest)"
    using es(2) len by (intro exI [of _ entries]) simp
  with sampleSearchResponse_shaped show ?thesis ..
qed

text \<open>The whole \<open>search_npm\<close> tool on the sample host.\<close>

lemma search_npm_example:
  "\<exists>entries. resultPromise sampleHost (ascii ''search_npm'') (JObj [(ascii ''query'', JStr (ascii ''zod''))]) =
     ([Acquire, Fetch (REGISTRY_URL @ ascii ''/-/v1/search?text=zod&size=10'')],
      Inr (textResult (ascii ''Found 42 packages (showing 3):'' @ nl @ nl @ entries)))"
proof -
  have parse: "SearchNpmSchema (JObj [(ascii ''query'', JStr (ascii ''zod''))])
      = Some \<lparr>query = ascii ''zod'', maxResults = 10\<rparr>"
    by (simp add: SearchNpmSchema_def zObject_def field_def zString_def zOptional_def ascii_def)
  have n10: "numberToString sampleHost 10 = ascii ''10''"
    by (simp add: numberToString_def showNat.simps ascii_def)
  have url: "REGISTRY_URL @ ascii ''/-/v1/search?text='' @ ascii ''zod'' @ ascii ''&size='' @ ascii ''10''
      = REGISTRY_URL @ ascii ''/-/v1/search?text=zod&size=10''"
    by (simp add: ascii_def)
  have f: "fetch sampleHost (REGISTRY_URL @ ascii ''/-/v1/search?text=zod&size=10'')
      = Response 200 (Inr sampleSearchResponse) (Inr [])"
    by (simp add: sampleHost_def)
  have u: "uriComponent sampleHost s = Inr s" for s
    by (simp add: sampleHost_def)
  have sp: "searchPackages sampleHost \<lparr>query = ascii ''zod'', maxResults = 10\<rparr> =
      ([Acquire, Fetch (REGISTRY_URL @ ascii ''/-/v1/search?text=zod&size=10'')], Inr sampleSearchResult)"
    by (simp add: searchPackages_def perform_def pure_def u n10 url httpGet_def f checkOk_def
        sampleSearchResponse_shaped)
  obtain t where t: "formatSearchResults sampleHost sampleSearchResult = Inr (ascii ''Found 42 packages (showing 3):'' @ nl @ nl @ t)"
    by (simp add: formatSearchResults_def sampleSearchResult_def samplePackages_def numberToString_def
        showNat.simps formatPackage_def Let_def ascii_def)
  show ?thesis
    by (rule exI [of _ t]) (simp add: resultPromise_def parse sp t pure_def)
qed



subsection \<open>RateLimiter\<close>

lemma processQueue_rateLimit [simp]: "rateLimit (processQueue now s) = rateLimit s"
  by (simp add: processQueue_def Let_def)

lemma processQueue_fifo:
  "map fst (resolved (processQueue now s)) @ queue (processQueue now s)
     = map fst (resolved s) @ queue s"
  by (cases "queue s") (simp_all add: processQueue_def Let_def)

lemma processQueue_spaced: "spaced s \<Longrightarrow> spaced (processQueue now s)"
proof (cases "resolved s = []")
  case True
  then show ?thesis
    by (simp add: spaced_def processQueue_def Let_def)
next
  case False
  assume "spaced s"
  with False show ?thesis
    by (simp add: spaced_def processQueue_def Let_def successively_append_iff last_map)
qed

lemma gateStep_rateLimit [simp]: "rateLimit (gateStep s ev) = rateLimit s"
  by (cases ev) (simp_all add: acquire_def)

lemma gateStep_fifo:
  "map fst (resolved (gateStep s ev)) @ queue (gateStep s ev)
     = map fst (resolved s) @ queue s @ callers [ev]"
  by (cases ev) (simp_all add: acquire_def processQueue_fifo)

lemma gateStep_spaced: "spaced s \<Longrightarrow> spaced (gateStep s ev)"
proof (cases ev)
  case (AcquireAt now w)
  assume "spaced s"
  then have "spaced (s\<lparr>queue := queue s @ [w]\<rparr>)"
    by (simp add: spaced_def)
  then show ?thesis
    unfolding AcquireAt gateStep.simps acquire_def by (rule processQueue_spaced)
next
  case (TimerAt now i)
  assume "spaced s"
  then have "spaced (s\<lparr>timers := take i (timers s) @ drop (Suc i) (timers s)\<rparr>)"
    by (simp add: spaced_def)
  then have "spaced (processQueue now (s\<lparr>timers := take i (timers s) @ drop (Suc i) (timers s)\<rparr>))"
    by (rule processQueue_spaced)
  with \<open>spaced s\<close> show ?thesis
    unfolding TimerAt by simp
qed

lemma callers_append: "callers (xs @ ys) = callers xs @ callers ys"
  by (induction xs rule: callers.induct) simp_all

lemma gateRun_rateLimit [simp]: "rateLimit (gateRun s evs) = rateLimit s"
  unfolding gateRun_def by (induction evs arbitrary: s) simp_all

lemma gateRun_fifo:
  "map fst (resolved (gateRun s evs)) @ queue (gateRun s evs)
     = map fst (resolved s) @ queue s @ callers evs"
  unfolding gateRun_def
proof (induction evs arbitrary: s)
  case Nil
  then show ?case by simp
next
  case (Cons ev evs)
  have "callers (ev # evs) = callers [ev] @ callers evs"
    using callers_append [of "[ev]" evs] by simp
  then show ?case
    using Cons [of "gateStep s ev"] gateStep_fifo [of s ev] by simp
qed

lemma gateRun_spaced: "spaced s \<Longrightarrow> spaced (gateRun s evs)"
  unfolding gateRun_def by (induction evs arbitrary: s) (simp_all add: gateStep_spaced)

lemma spaced_new: "spaced (newRateLimiter requestsPerSecond)"
  by (simp add: spaced_def newRateLimiter_def)

lemma successively_gap:
  fixes r :: rat and ts :: "int list"
  assumes "successively (\<lambda>a b. r \<le> of_int (b - a)) ts"
  shows "j < length ts \<Longrightarrow> i \<le> j \<Longrightarrow> of_nat (j - i) * r \<le> of_int (ts ! j - ts ! i)"
proof (induction j)
  case 0
  then show ?case by simp
next
  case (Suc j)
  show ?case
  proof (cases "i = Suc j")
    case True
    then show ?thesis by simp
  next
    case False
    with Suc.prems have ij: "i \<le> j" and j: "j < length ts" by simp_all
    have step: "r \<le> of_int (ts ! Suc j - ts ! j)"
      using successively_nth [OF assms, of j] Suc.prems by simp
    have "of_nat (Suc j - i) * r = of_nat (j - i) * r + r"
      using ij by (simp add: Suc_diff_le algebra_simps)
    also have "\<dots> \<le> of_int (ts ! j - ts ! i) + of_int (ts ! Suc j - ts ! j)"
      using Suc.IH [OF j ij] step by simp
    also have "\<dots> = of_int (ts ! Suc j - ts ! i)"
      by simp
    finally show ?thesis .
  qed
qed

text \<open>
  C1. Whatever calls of \<open>acquire()\<close> and timer callbacks happen to a fresh limiter of a
  positive number of requests per second, in whatever order and at whatever times (so
  also for \<open>N\<close> calls at time 0): the waiters resolved so far are the first callers, in the
  order of their calls, and the others still wait in that order (strict FIFO, nobody
  dropped); the \<open>k\<close>-th resolution is no earlier than \<open>k - 1\<close> times the minimum spacing
  \<open>1000 / requestsPerSecond\<close> after the first (indices count from 0 below); and no two
  resolutions are closer together than the minimum spacing.
\<close>

theorem rateLimiter_fifo_and_spacing:
  assumes "0 < requestsPerSecond"
  shows "let s = gateRun (newRateLimiter requestsPerSecond) evs; ts = map snd (resolved s) in
     rateLimit s = 1000 / requestsPerSecond
     \<and> map fst (resolved s) @ queue s = callers evs
     \<and> map fst (resolved s) = take (length (resolved s)) (callers evs)
     \<and> (\<forall>k<length ts. of_nat k * rateLimit s \<le> of_int (ts ! k - ts ! 0))
     \<and> (\<forall>i j. i < j \<and> j < length ts \<longrightarrow> rateLimit s \<le> of_int (ts ! j - ts ! i))"
proof -
  define s where "s = gateRun (newRateLimiter requestsPerSecond) evs"
  define ts where "ts = map snd (resolved s)"
  have r: "rateLimit s = 1000 / requestsPerSecond"
    by (simp add: s_def) (simp add: newRateLimiter_def)
  have fifo: "map fst (resolved s) @ queue s = callers evs"
    using gateRun_fifo [of "newRateLimiter requestsPerSecond" evs]
    by (simp add: s_def) (simp add: newRateLimiter_def)
  then have "take (length (resolved s)) (callers evs) = map fst (resolved s)"
    by (metis append_eq_conv_conj length_map)
  then have pre: "map fst (resolved s) = take (length (resolved s)) (callers evs)" ..
  have "spaced s"
    unfolding s_def by (rule gateRun_spaced) (rule spaced_new)
  then have succ: "successively (\<lambda>a b. rateLimit s \<le> of_int (b - a)) ts"
    by (simp add: spaced_def ts_def)
  have kth: "\<forall>k<length ts. of_nat k * rateLimit s \<le> of_int (ts ! k - ts ! 0)"
    using successively_gap [OF succ, of _ 0] by simp
  have any: "\<forall>i j. i < j \<and> j < length ts \<longrightarrow> rateLimit s \<le> of_int (ts ! j - ts ! i)"
  proof (intro allI impI)
    fix i j assume ij: "i < j \<and> j < length ts"
    have "0 \<le> rateLimit s" using assms r by simp
    moreover have "1 \<le> (of_nat (j - i) :: rat)" using ij by simp
    ultimately have "rateLimit s \<le> of_nat (j - i) * rateLimit s"
      using mult_right_mono [of 1 "of_nat (j - i)" "rateLimit s"] by simp
    also have "\<dots> \<le> of_int (ts ! j - ts ! i)"
      using successively_gap [OF succ, of j i] ij by simp
    finally show "rateLimit s \<le> of_int (ts ! j - ts ! i)" .
  qed
  show ?thesis
    unfolding Let_def s_def [symmetric] ts_def [symmetric]
    using r fifo pre kth any by blast
qed

lemma sampleBurst_run:
  "gateRun (newRateLimiter 2) sampleBurst =
     \<lparr>rateLimit = 500, queue = [], lastRequestTime = 1500, timers = [],
      resolved = [(1, 500), (2, 1000), (3, 1500)]\<rparr>"
  by (simp add: gateRun_def sampleBurst_def newRateLimiter_def acquire_def processQueue_def Let_def)

theorem rateLimiter_fifo_and_spacing_witness:
  "map fst (resolved (gateRun (newRateLimiter 2) sampleBurst)) = [1, 2, 3]
   \<and> callers sampleBurst = [1, 2, 3]
   \<and> map snd (resolved (gateRun (newRateLimiter 2) sampleBurst)) = [500, 1000, 1500]
   \<and> rateLimit (gateRun (newRateLimiter 2) sampleBurst) = 500
   \<and> 2 * rateLimit (gateRun (newRateLimiter 2) sampleBurst) \<le> of_int (1500 - 500)
   \<and> rateLimit (gateRun (newRateLimiter 2) sampleBurst) \<le> of_int (1500 - 1000)"
  using rateLimiter_fifo_and_spacing [of 2 sampleBurst]
  by (simp add: sampleBurst_run)

subsection \<open>Effects of the handlers\<close>

lemma fst_andThen:
  "fst (andThen t f) = fst t @ (case snd t of Inl e \<Rightarrow> [] | Inr a \<Rightarrow> fst (f a))"
  by (cases t; cases "snd t") auto

lemma fst_pure [simp]: "fst (pure r) = []"
  by (simp add: pure_def)

lemma fst_reportResult [simp]: "fst (reportResult h r) = []"
  by (simp add: reportResult_def)

lemma fst_report [simp]: "fst (report v m) = []"
  by (simp add: report_def)

lemma fst_countKeys [simp]: "fst (countKeys v) = []"
  by (simp add: countKeys_def)

lemma fst_runNcu [simp]: "fst (runNcu h base) = [NcuRun (ncuOptionsOf base)]"
  by (simp add: runNcu_def Let_def)

lemma fst_resolvePackagePath [simp]:
  "fst (resolvePackagePath h p) = [ExistsSync (pathResolve h (manifestName p))]"
  by (simp add: resolvePackagePath_def Let_def)

lemma snd_resolvePackagePath:
  "snd (resolvePackagePath h p) =
     (if existsSync h (pathResolve h (manifestName p)) then Inr (pathResolve h (manifestName p))
      else Inl (Error (ascii ''Package file not found: '' @ pathResolve h (manifestName p))))"
  by (simp add: resolvePackagePath_def Let_def)

lemma fst_catchWrap [simp]: "fst (catchWrap pre t) = fst t"
  by (cases t; cases "snd t") auto

lemma fst_perform [simp]: "fst (perform ev) = [ev]"
  by (simp add: perform_def)

lemma snd_perform [simp]: "snd (perform ev) = Inr ()"
  by (simp add: perform_def)

lemma handlers_leave_a_trace:
  "hd (fst (searchPackages h sa)) = Acquire \<and> fst (searchPackages h sa) \<noteq> []"
  "hd (fst (fetchPackageContent h fa)) = Acquire \<and> fst (fetchPackageContent h fa) \<noteq> []"
  "hd (fst (getPackageVersions h ga)) = Acquire \<and> fst (getPackageVersions h ga) \<noteq> []"
  "hd (fst (getPackageDetails h ga)) = Acquire \<and> fst (getPackageDetails h ga) \<noteq> []"
  "fst (checkUpdates h ua) \<noteq> []" "fst (upgradePackages h ua) \<noteq> []"
  "fst (filterUpdates h ua) \<noteq> []" "fst (resolveConflicts h ua) \<noteq> []"
  "fst (setVersionConstraints h ua) \<noteq> []" "fst (runDoctor h ua) \<noteq> []"
  by (simp_all add: searchPackages_def fetchPackageContent_def getPackageVersions_def
      getPackageDetails_def checkUpdates_def upgradePackages_def filterUpdates_def
      resolveConflicts_def setVersionConstraints_def runDoctor_def fst_andThen)


subsection \<open>The race of the dispatcher\<close>

lemma race_settled: "foldl raceStep (Some r) evs = Some r"
  by (induction evs) simp_all












subsection \<open>Unknown tools\<close>

lemma toolNames_cases:
  "toolName \<notin> set toolNames \<longleftrightarrow>
     toolName \<noteq> ascii ''search_npm'' \<and> toolName \<noteq> ascii ''fetch_package_content''
     \<and> toolName \<noteq> ascii ''get_package_versions'' \<and> toolName \<noteq> ascii ''get_package_details''
     \<and> toolName \<noteq> ascii ''check_updates'' \<and> toolName \<noteq> ascii ''upgrade_packages''
     \<and> toolName \<noteq> ascii ''filter_updates'' \<and> toolName \<noteq> ascii ''resolve_conflicts''
     \<and> toolName \<noteq> ascii ''set_version_constraints'' \<and> toolName \<noteq> ascii ''run_doctor''"
  by (simp add: toolNames_def)

text \<open>
  C8. For every invocation whose tool name is none of the declared ones (\<open>bogus_tool\<close> in
  the example that follows), the handler's promise rejects with the \<open>McpError\<close> \<open>MethodNotFound\<close> that
  names the tool, the dispatcher rethrows it as the protocol-level error, and the
  invocation has no effect at all: no \<open>RateLimiter.acquire()\<close>, no fetch, no file check and
  no \<open>ncu.run\<close>. Every handler starts with an effect (\<open>handlers_leave_a_trace\<close>), so none
  was invoked.
\<close>

theorem unknown_tool_reaches_nothing:
  assumes "toolName \<notin> set toolNames"
  shows "resultPromise h toolName args =
           ([], Inl (McpError MethodNotFound (ascii ''Unknown tool: '' @ toolName)))
     \<and> callTool (HandlerSettled (snd (resultPromise h toolName args)) # evs) =
           Some (Thrown (McpError MethodNotFound (ascii ''Unknown tool: '' @ toolName)))"
proof -
  have "resultPromise h toolName args =
           ([], Inl (McpError MethodNotFound (ascii ''Unknown tool: '' @ toolName)))"
    using assms unfolding toolNames_cases by (simp add: resultPromise_def pure_def)
  then show ?thesis
    by (simp add: callTool_def race_def race_settled surface_def)
qed

theorem unknown_tool_reaches_nothing_witness:
  "resultPromise sampleHost (ascii ''bogus_tool'') (JObj []) =
           ([], Inl (McpError MethodNotFound (ascii ''Unknown tool: '' @ ascii ''bogus_tool'')))
     \<and> callTool [HandlerSettled (snd (resultPromise sampleHost (ascii ''bogus_tool'') (JObj []))), TimeoutFired] =
           Some (Thrown (McpError MethodNotFound (ascii ''Unknown tool: '' @ ascii ''bogus_tool'')))"
proof -
  have "ascii ''bogus_tool'' \<notin> set toolNames"
    by (simp add: toolNames_def ascii_def)
  from unknown_tool_reaches_nothing [OF this, of sampleHost "JObj []" "[TimeoutFired]"]
  show ?thesis .
qed


subsection \<open>A missing manifest\<close>

lemma resolvePackagePath_missing:
  "\<not> existsSync h (pathResolve h (manifestName p)) \<Longrightarrow>
     resolvePackagePath h p =
       ([ExistsSync (pathResolve h (manifestName p))],
        Inl (Error (ascii ''Package file not found: '' @ pathResolve h (manifestName p))))"
  by (simp add: resolvePackagePath_def Let_def del: fst_resolvePackagePath)

lemma update_tool_names:
  "ascii ''check_updates'' \<noteq> ascii ''search_npm''"
  "ascii ''check_updates'' \<noteq> ascii ''fetch_package_content''"
  "ascii ''check_updates'' \<noteq> ascii ''get_package_versions''"
  "ascii ''check_updates'' \<noteq> ascii ''get_package_details''"
  "ascii ''upgrade_packages'' \<noteq> ascii ''search_npm''"
  "ascii ''upgrade_packages'' \<noteq> ascii ''fetch_package_content''"
  "ascii ''upgrade_packages'' \<noteq> ascii ''get_package_versions''"
  "ascii ''upgrade_packages'' \<noteq> ascii ''get_package_details''"
  "ascii ''upgrade_packages'' \<noteq> ascii ''check_updates''"
  "ascii ''filter_updates'' \<noteq> ascii ''search_npm''"
  "ascii ''filter_updates'' \<noteq> ascii ''fetch_package_content''"
  "ascii ''filter_updates'' \<noteq> ascii ''get_package_versions''"
  "ascii ''filter_updates'' \<noteq> ascii ''get_package_details''"
  "ascii ''filter_updates'' \<noteq> ascii ''check_updates''"
  "ascii ''filter_updates'' \<noteq> ascii ''upgrade_packages''"
  "ascii ''resolve_conflicts'' \<noteq> ascii ''search_npm''"
  "ascii ''resolve_conflicts'' \<noteq> ascii ''fetch_package_content''"
  "ascii ''resolve_conflicts'' \<noteq> ascii ''get_package_versions''"
  "ascii ''resolve_conflicts'' \<noteq> ascii ''get_package_details''"
  "ascii ''resolve_conflicts'' \<noteq> ascii ''check_updates''"
  "ascii ''resolve_conflicts'' \<noteq> ascii ''upgrade_packages''"
  "ascii ''resolve_conflicts'' \<noteq> ascii ''filter_updates''"
  "ascii ''set_version_constraints'' \<noteq> ascii ''search_npm''"
  "ascii ''set_version_constraints'' \<noteq> ascii ''fetch_package_content''"
  "ascii ''set_version_constraints'' \<noteq> ascii ''get_package_versions''"
  "ascii ''set_version_constraints'' \<noteq> ascii ''get_package_details''"
  "ascii ''set_version_constraints'' \<noteq> ascii ''check_updates''"
  "ascii ''set_version_constraints'' \<noteq> ascii ''upgrade_packages''"
  "ascii ''set_version_constraints'' \<noteq> ascii ''filter_updates''"
  "ascii ''set_version_constraints'' \<noteq> ascii ''resolve_conflicts''"
  "ascii ''run_doctor'' \<noteq> ascii ''search_npm''"
  "ascii ''run_doctor'' \<noteq> ascii ''fetch_package_content''"
  "ascii ''run_doctor'' \<noteq> ascii ''get_package_versions''"
  "ascii ''run_doctor'' \<noteq> ascii ''get_package_details''"
  "ascii ''run_doctor'' \<noteq> ascii ''check_updates''"
  "ascii ''run_doctor'' \<noteq> ascii ''upgrade_packages''"
  "ascii ''run_doctor'' \<noteq> ascii ''filter_updates''"
  "ascii ''run_doctor'' \<noteq> ascii ''resolve_conflicts''"
  "ascii ''run_doctor'' \<noteq> ascii ''set_version_constraints''"
  by (simp_all add: ascii_def)

lemma update_tool_dispatch:
  assumes "updateSchema toolName = Some schema" and "schema args = Some parsed"
  shows "\<exists>runner adjust.
      runner \<in> {checkUpdates, upgradePackages, filterUpdates, resolveConflicts, setVersionConstraints, runDoctor}
      \<and> packagePath (adjust parsed) = packagePath parsed
      \<and> resultPromise h toolName args = andThen (runner h (adjust parsed)) (reportResult h)"
proof -
  consider "toolName = ascii ''check_updates''" "schema = CheckUpdatesSchema"
    | "toolName = ascii ''upgrade_packages''" "schema = UpgradePackagesSchema"
    | "toolName = ascii ''filter_updates''" "schema = FilterUpdatesSchema"
    | "toolName = ascii ''resolve_conflicts''" "schema = ResolveConflictsSchema"
    | "toolName = ascii ''set_version_constraints''" "schema = SetVersionConstraintsSchema"
    | "toolName = ascii ''run_doctor''" "schema = RunDoctorSchema"
    using assms(1) by (auto simp: updateSchema_def split: if_splits)
  then show ?thesis
  proof cases
    case 1
    with assms(2) have "resultPromise h toolName args = andThen (checkUpdates h parsed) (reportResult h)"
      by (simp add: resultPromise_def update_tool_names)
    then show ?thesis by (intro exI [of _ checkUpdates] exI [of _ "\<lambda>a. a"]) simp
  next
    case 2
    with assms(2) have "resultPromise h toolName args = andThen (upgradePackages h parsed) (reportResult h)"
      by (simp add: resultPromise_def update_tool_names)
    then show ?thesis by (intro exI [of _ upgradePackages] exI [of _ "\<lambda>a. a"]) simp
  next
    case 3
    with assms(2) have "resultPromise h toolName args = andThen (filterUpdates h parsed) (reportResult h)"
      by (simp add: resultPromise_def update_tool_names)
    then show ?thesis by (intro exI [of _ filterUpdates] exI [of _ "\<lambda>a. a"]) simp
  next
    case 4
    with assms(2) have "resultPromise h toolName args =
        andThen (resolveConflicts h (parsed\<lparr>peer := Some True\<rparr>)) (reportResult h)"
      by (simp add: resultPromise_def update_tool_names)
    then show ?thesis by (intro exI [of _ resolveConflicts] exI [of _ "\<lambda>a. a\<lparr>peer := Some True\<rparr>"]) simp
  next
    case 5
    with assms(2) have "resultPromise h toolName args = andThen (setVersionConstraints h parsed) (reportResult h)"
      by (simp add: resultPromise_def update_tool_names)
    then show ?thesis by (intro exI [of _ setVersionConstraints] exI [of _ "\<lambda>a. a"]) simp
  next
    case 6
    with assms(2) have "resultPromise h toolName args = andThen (runDoctor h parsed) (reportResult h)"
      by (simp add: resultPromise_def update_tool_names)
    then show ?thesis by (intro exI [of _ runDoctor] exI [of _ "\<lambda>a. a"]) simp
  qed
qed

lemma update_handler_missing:
  assumes "runner \<in> {checkUpdates, upgradePackages, filterUpdates, resolveConflicts, setVersionConstraints, runDoctor}"
    and "\<not> existsSync h (pathResolve h (manifestName (packagePath a)))"
  shows "runner h a =
       ([ExistsSync (pathResolve h (manifestName (packagePath a)))],
        Inl (Error (ascii ''Package file not found: '' @ pathResolve h (manifestName (packagePath a)))))"
  using assms(1) resolvePackagePath_missing [OF assms(2)]
  by (auto simp: checkUpdates_def upgradePackages_def filterUpdates_def resolveConflicts_def
      setVersionConstraints_def runDoctor_def)

text \<open>
  C9. For every invocation of one of the six update tools with arguments its schema
  accepts, if the resolved manifest path does not exist, then the handler fails with the
  error \<open>Package file not found: <resolved path>\<close>, the dispatcher returns a result with
  \<open>isError: true\<close> whose text is that message, and the only effect is the \<open>existsSync\<close> of
  the resolved path: \<open>ncu.run\<close> is never invoked.
\<close>

theorem missing_manifest_never_runs_ncu:
  assumes "updateSchema toolName = Some schema" and "schema args = Some parsed"
    and "\<not> existsSync h (pathResolve h (manifestName (packagePath parsed)))"
  shows "let resolvedPath = pathResolve h (manifestName (packagePath parsed)) in
      resultPromise h toolName args =
        ([ExistsSync resolvedPath], Inl (Error (ascii ''Package file not found: '' @ resolvedPath)))
      \<and> callTool (HandlerSettled (snd (resultPromise h toolName args)) # evs) =
           Some (Returned \<lparr>content = [(ascii ''text'', ascii ''Package file not found: '' @ resolvedPath)],
                           isError = Some True\<rparr>)
      \<and> (\<forall>options. NcuRun options \<notin> set (fst (resultPromise h toolName args)))"
proof -
  from update_tool_dispatch [OF assms(1,2), of h] obtain runner adjust where
    m: "runner \<in> {checkUpdates, upgradePackages, filterUpdates, resolveConflicts, setVersionConstraints, runDoctor}"
    and p: "packagePath (adjust parsed) = packagePath parsed"
    and r: "resultPromise h toolName args = andThen (runner h (adjust parsed)) (reportResult h)"
    by blast
  have "runner h (adjust parsed) =
       ([ExistsSync (pathResolve h (manifestName (packagePath parsed)))],
        Inl (Error (ascii ''Package file not found: '' @ pathResolve h (manifestName (packagePath parsed)))))"
    using update_handler_missing [OF m, of h "adjust parsed"] assms(3) p by simp
  then have "resultPromise h toolName args =
       ([ExistsSync (pathResolve h (manifestName (packagePath parsed)))],
        Inl (Error (ascii ''Package file not found: '' @ pathResolve h (manifestName (packagePath parsed)))))"
    by (simp add: r)
  then show ?thesis
    by (simp add: Let_def callTool_def race_def race_settled surface_def)
qed

theorem missing_manifest_never_runs_ncu_witness:
  "resultPromise sampleHost (ascii ''check_updates'') (JObj [(ascii ''packagePath'', JStr (ascii ''missing.json''))]) =
        ([ExistsSync (ascii ''/work/missing.json'')],
         Inl (Error (ascii ''Package file not found: '' @ ascii ''/work/missing.json'')))
   \<and> callTool [HandlerSettled (snd (resultPromise sampleHost (ascii ''check_updates'')
                  (JObj [(ascii ''packagePath'', JStr (ascii ''missing.json''))]))), TimeoutFired] =
        Some (Returned \<lparr>content = [(ascii ''text'', ascii ''Package file not found: '' @ ascii ''/work/missing.json'')],
                        isError = Some True\<rparr>)"
proof -
  let ?args = "JObj [(ascii ''packagePath'', JStr (ascii ''missing.json''))]"
  let ?parsed = "noArgs\<lparr>packagePath := Some (ascii ''missing.json'')\<rparr>"
  have s: "updateSchema (ascii ''check_updates'') = Some CheckUpdatesSchema"
    by (simp add: updateSchema_def)
  have p: "CheckUpdatesSchema ?args = Some ?parsed"
    by (simp add: CheckUpdatesSchema_def zObject_def field_def zOptional_def zString_def
        zArray_def zBoolean_def NcuTargetEnum_def PackageManagerEnum_def zEnum_def noArgs_def ascii_def)
  have m: "manifestName (packagePath ?parsed) = ascii ''missing.json''"
    by (simp add: manifestName_def noArgs_def)
  have res: "pathResolve sampleHost (ascii ''missing.json'') = ascii ''/work/missing.json''"
    by (simp add: sampleHost_def ascii_def)
  have e: "\<not> existsSync sampleHost (pathResolve sampleHost (manifestName (packagePath ?parsed)))"
    unfolding m res by (simp add: sampleHost_def ascii_def)
  from missing_manifest_never_runs_ncu [OF s p e, of "[TimeoutFired]"]
  show ?thesis unfolding m res Let_def by blast
qed


subsection \<open>The peer strategy of conflict resolution\<close>

lemma peer_kept_by_setFlag:
  "ascii k \<noteq> ascii ''peer'' \<Longrightarrow> map_of (setFlag k b obj) (ascii ''peer'') = map_of obj (ascii ''peer'')"
  by (simp add: setFlag_def update_conv')

lemma peer_kept_by_setString:
  "ascii k \<noteq> ascii ''peer'' \<Longrightarrow> map_of (setString k s obj) (ascii ''peer'') = map_of obj (ascii ''peer'')"
  by (simp add: setString_def update_conv' split: option.splits)

lemma option_names:
  "ascii ''upgrade'' \<noteq> ascii ''peer''" "ascii ''minimal'' \<noteq> ascii ''peer''"
  "ascii ''packageManager'' \<noteq> ascii ''peer''" "ascii ''packageFile'' \<noteq> ascii ''peer''"
  "ascii ''jsonUpgraded'' \<noteq> ascii ''peer''" "ascii ''silent'' \<noteq> ascii ''peer''"
  "ascii ''stdout'' \<noteq> ascii ''peer''" "ascii ''stderr'' \<noteq> ascii ''peer''"
  "ascii ''loglevel'' \<noteq> ascii ''peer''" "ascii ''json'' \<noteq> ascii ''peer''"
  by (simp_all add: ascii_def)

lemma peer_kept_by_ncuOptionsOf:
  "map_of (ncuOptionsOf base) (ascii ''peer'') = map_of base (ascii ''peer'')"
  by (simp add: ncuOptionsOf_def spread_def update_conv' option_names [symmetric])

lemma resolveConflicts_effects:
  "\<exists>options. map_of options (ascii ''peer'') = Some (JBool True)
     \<and> fst (resolveConflicts h a) =
         (if existsSync h (pathResolve h (manifestName (packagePath a)))
          then [ExistsSync (pathResolve h (manifestName (packagePath a))), NcuRun options]
          else [ExistsSync (pathResolve h (manifestName (packagePath a)))])"
proof -
  let ?p = "pathResolve h (manifestName (packagePath a))"
  let ?base = "setString ''packageManager'' (packageManager a)
      (setFlag ''minimal'' (minimal a)
        (setFlag ''upgrade'' (upgrade a)
          [(ascii ''packageFile'', JStr ?p), (ascii ''peer'', JBool True)]))"
  have "map_of (ncuOptionsOf ?base) (ascii ''peer'') = Some (JBool True)"
    by (simp add: peer_kept_by_ncuOptionsOf peer_kept_by_setString peer_kept_by_setFlag option_names
        option_names [symmetric])
  moreover have "fst (resolveConflicts h a) =
         (if existsSync h ?p then [ExistsSync ?p, NcuRun (ncuOptionsOf ?base)] else [ExistsSync ?p])"
    by (simp add: resolveConflicts_def fst_andThen snd_resolvePackagePath Let_def split: sum.splits)
  ultimately show ?thesis by blast
qed

lemma resolve_conflicts_name:
  "ascii ''resolve_conflicts'' \<noteq> ascii ''search_npm''"
  "ascii ''resolve_conflicts'' \<noteq> ascii ''fetch_package_content''"
  "ascii ''resolve_conflicts'' \<noteq> ascii ''get_package_versions''"
  "ascii ''resolve_conflicts'' \<noteq> ascii ''get_package_details''"
  "ascii ''resolve_conflicts'' \<noteq> ascii ''check_updates''"
  "ascii ''resolve_conflicts'' \<noteq> ascii ''upgrade_packages''"
  "ascii ''resolve_conflicts'' \<noteq> ascii ''filter_updates''"
  by (simp_all add: ascii_def)

text \<open>
  C10. For every invocation of \<open>resolve_conflicts\<close>, whatever the arguments, every call of
  \<open>ncu.run\<close> it makes has the option \<open>peer: true\<close>; and it does make the call whenever the
  schema accepts the arguments and the manifest exists. The schema declares no \<open>peer\<close>
  field, so a \<open>peer: false\<close> of the caller is stripped (the example that follows).
\<close>

theorem resolve_conflicts_always_peer:
  "(\<forall>options. NcuRun options \<in> set (fst (resultPromise h (ascii ''resolve_conflicts'') args))
       \<longrightarrow> map_of options (ascii ''peer'') = Some (JBool True))
   \<and> (\<forall>parsed. ResolveConflictsSchema args = Some parsed
         \<and> existsSync h (pathResolve h (manifestName (packagePath parsed)))
       \<longrightarrow> (\<exists>options. NcuRun options \<in> set (fst (resultPromise h (ascii ''resolve_conflicts'') args))))"
proof (cases "ResolveConflictsSchema args")
  case None
  then have "fst (resultPromise h (ascii ''resolve_conflicts'') args) = []"
    by (simp add: resultPromise_def resolve_conflicts_name)
  with None show ?thesis by simp
next
  case (Some parsed)
  let ?a = "parsed\<lparr>peer := Some True\<rparr>"
  have eff: "fst (resultPromise h (ascii ''resolve_conflicts'') args) = fst (resolveConflicts h ?a)"
    using Some
    by (simp add: resultPromise_def resolve_conflicts_name fst_andThen split: sum.splits)
  from resolveConflicts_effects [of h ?a] obtain options where
    o: "map_of options (ascii ''peer'') = Some (JBool True)"
    and f: "fst (resolveConflicts h ?a) =
         (if existsSync h (pathResolve h (manifestName (packagePath parsed)))
          then [ExistsSync (pathResolve h (manifestName (packagePath parsed))), NcuRun options]
          else [ExistsSync (pathResolve h (manifestName (packagePath parsed)))])"
    by auto
  show ?thesis
    using Some o by (auto simp: eff f)
qed

theorem resolve_conflicts_always_peer_witness:
  "\<exists>options. NcuRun options \<in> set (fst (resultPromise sampleHost (ascii ''resolve_conflicts'')
                   (JObj [(ascii ''peer'', JBool False), (ascii ''upgrade'', JBool True)])))
     \<and> map_of options (ascii ''peer'') = Some (JBool True)"
proof -
  let ?args = "JObj [(ascii ''peer'', JBool False), (ascii ''upgrade'', JBool True)]"
  let ?parsed = "noArgs\<lparr>upgrade := Some True\<rparr>"
  have p: "ResolveConflictsSchema ?args = Some ?parsed"
    by (simp add: ResolveConflictsSchema_def zObject_def field_def zOptional_def zString_def
        zBoolean_def PackageManagerEnum_def zEnum_def noArgs_def ascii_def)
  have e: "existsSync sampleHost (pathResolve sampleHost (manifestName (packagePath ?parsed)))"
    by (simp add: manifestName_def noArgs_def sampleHost_def ascii_def)
  from resolve_conflicts_always_peer [of sampleHost ?args] p e
  show ?thesis by blast
qed

subsection \<open>getPackageDetails\<close>

lemma get_JObj: "get (JObj kvs) k = Inr (field kvs k)"
  by (simp add: get_def field_def)

lemma get_valueAt: "\<not> nullish d \<Longrightarrow> get d k = Inr (valueAt d k)"
  by (cases d) (simp_all add: get_def valueAt_def field_def nullish_def)

lemma versionDetails_kept:
  "\<not> nullish d \<Longrightarrow>
     versionDetails d = Inr (JObj (map (\<lambda>k. (ascii k, valueAt d k)) versionFields))"
  by (simp add: versionDetails_def get_valueAt versionFields_def)

lemma mapE_all: "\<forall>x\<in>set xs. f x = Inr (g x) \<Longrightarrow> mapE f xs = Inr (map g xs)"
  by (induction xs) simp_all

lemma update_fresh: "k \<notin> fst ` set al \<Longrightarrow> AList.update k v al = al @ [(k, v)]"
  by (induction al) auto

lemma fold_update_fresh:
  "distinct (map fst es) \<Longrightarrow> fst ` set es \<inter> fst ` set obj = {} \<Longrightarrow>
     fold (\<lambda>(k, v) obj. AList.update k v obj) es obj = obj @ es"
proof (induction es arbitrary: obj)
  case Nil
  then show ?case by simp
next
  case (Cons e es)
  obtain k v where e: "e = (k, v)" by (cases e)
  from Cons.prems have fresh: "k \<notin> fst ` set obj" and d: "distinct (map fst es)"
    and k: "k \<notin> fst ` set es" and disj: "fst ` set es \<inter> fst ` set obj = {}"
    by (auto simp: e)
  have "fst ` set es \<inter> fst ` set (obj @ [(k, v)]) = {}"
    using k disj by auto
  from Cons.IH [OF d this] show ?case
    by (simp add: e update_fresh [OF fresh])
qed

lemma fromEntries_distinct: "distinct (map fst es) \<Longrightarrow> fromEntries es = es"
  using fold_update_fresh [of es "[]"] by (simp add: fromEntries_def)

lemma distinct_sliceLast: "distinct (map fst es) \<Longrightarrow> distinct (map fst (sliceLast n es))"
  by (simp add: sliceLast_def drop_map [symmetric] distinct_drop)

lemma recentVersions_kept:
  assumes "distinct (map fst vs)" and "\<forall>d\<in>snd ` set (sliceLast 10 vs). \<not> nullish d"
  shows "recentVersions (JObj vs) =
     Inr (JObj (map (\<lambda>(ver, d). (ver, JObj (map (\<lambda>k. (ascii k, valueAt d k)) versionFields)))
            (sliceLast 10 vs)))"
proof -
  let ?g = "\<lambda>(ver, d). (ver, JObj (map (\<lambda>k. (ascii k, valueAt d k)) versionFields))"
  have "\<forall>x\<in>set (sliceLast 10 vs).
      (\<lambda>(ver, details). bindE (versionDetails details) (\<lambda>d. Inr (ver, d))) x = Inr (?g x)"
    using assms(2) by (auto simp: versionDetails_kept)
  then have m: "mapE (\<lambda>(ver, details). bindE (versionDetails details) (\<lambda>d. Inr (ver, d))) (sliceLast 10 vs)
      = Inr (map ?g (sliceLast 10 vs))"
    by (rule mapE_all)
  have "fst \<circ> ?g = fst"
    by (auto simp: fun_eq_iff)
  then have "map fst (map ?g (sliceLast 10 vs)) = map fst (sliceLast 10 vs)"
    unfolding map_map by (rule arg_cong)
  then have "distinct (map fst (map ?g (sliceLast 10 vs)))"
    using distinct_sliceLast [OF assms(1), of 10] by (simp only:)
  then have "fromEntries (map ?g (sliceLast 10 vs)) = map ?g (sliceLast 10 vs)"
    by (rule fromEntries_distinct)
  then show ?thesis
    by (simp add: recentVersions_def objectEntries_def m)
qed

lemma recentTimes_kept:
  assumes "distinct (map fst ts)"
  shows "recentTimes (JObj ts) =
     Inr (JObj ((ascii ''created'', field ts ''created'') # (ascii ''modified'', field ts ''modified'')
            # sliceLast 10 (filter (\<lambda>(k, v). k \<noteq> ascii ''created'' \<and> k \<noteq> ascii ''modified'') ts)))"
proof -
  let ?others = "sliceLast 10 (filter (\<lambda>(k, v). k \<notin> set [ascii ''created'', ascii ''modified'']) ts)"
  have d: "distinct (map fst ?others)"
    by (intro distinct_sliceLast distinct_map_filter assms)
  have "fst ` set ?others \<subseteq> fst ` set (filter (\<lambda>(k, v). k \<notin> set [ascii ''created'', ascii ''modified'']) ts)"
    unfolding sliceLast_def by (intro image_mono set_drop_subset)
  then have fresh: "fst ` set ?others \<inter> fst ` set [(ascii ''created'', c), (ascii ''modified'', m)] = {}" for c m
    by auto
  have "spread [(ascii ''created'', c), (ascii ''modified'', m)] (fromEntries ?others)
      = [(ascii ''created'', c), (ascii ''modified'', m)] @ ?others" for c m
    unfolding fromEntries_distinct [OF d] spread_def
    by (rule fold_update_fresh [OF d fresh])
  moreover have "(\<lambda>(k, v). k \<notin> set [ascii ''created'', ascii ''modified''])
      = (\<lambda>(k, v). k \<noteq> ascii ''created'' \<and> k \<noteq> ascii ''modified'')"
    by auto
  ultimately show ?thesis
    by (simp add: recentTimes_def get_JObj objectEntries_def)
qed

lemma processedData_keys:
  "map_of [(ascii ''name'', n), (ascii ''description'', d), (ascii ''dist-tags'', tags),
           (ascii ''maintainers'', ms), (ascii ''homepage'', hp), (ascii ''repository'', r),
           (ascii ''license'', l), (ascii ''versions'', vs), (ascii ''time'', t)] (ascii ''versions'') = Some vs"
  "map_of [(ascii ''name'', n), (ascii ''description'', d), (ascii ''dist-tags'', tags),
           (ascii ''maintainers'', ms), (ascii ''homepage'', hp), (ascii ''repository'', r),
           (ascii ''license'', l), (ascii ''versions'', vs), (ascii ''time'', t)] (ascii ''time'') = Some t"
  by (simp_all add: ascii_def)

lemma processedData_object:
  assumes "recentVersions (field kvs ''versions'') = Inr vs"
    and "recentTimes (field kvs ''time'') = Inr t"
  shows "processedData (JObj kvs) =
     Inr (JObj [(ascii ''name'', field kvs ''name''), (ascii ''description'', field kvs ''description''),
                (ascii ''dist-tags'', field kvs ''dist-tags''), (ascii ''maintainers'', field kvs ''maintainers''),
                (ascii ''homepage'', field kvs ''homepage''), (ascii ''repository'', field kvs ''repository''),
                (ascii ''license'', field kvs ''license''), (ascii ''versions'', vs), (ascii ''time'', t)])"
  by (simp add: processedData_def get_JObj assms)

text \<open>
  C5. For every package document (an object) whose \<open>versions\<close> is an object with at least
  10 entries, keys distinct, the last 10 of them not \<open>null\<close> or \<open>undefined\<close>, and whose \<open>time\<close> is
  an object with distinct keys: the result of \<open>getPackageDetails\<close> has under \<open>versions\<close>
  exactly 10 entries, the last 10 of the document in its order, each reduced to the seven
  fields \<open>name\<close>, \<open>version\<close>, \<open>description\<close>, \<open>main\<close>, \<open>dependencies\<close>, \<open>devDependencies\<close>,
  \<open>peerDependencies\<close> with the values the document has for them; and under \<open>time\<close> the
  entries \<open>created\<close> and \<open>modified\<close> followed by the last 10 of the other timestamps (all of
  them when there are fewer).
\<close>

theorem processedData_keeps_last_10:
  assumes "field kvs ''versions'' = JObj vs" and "distinct (map fst vs)" and "10 \<le> length vs"
    and "\<forall>d\<in>snd ` set (drop (length vs - 10) vs). \<not> nullish d"
    and "field kvs ''time'' = JObj ts" and "distinct (map fst ts)"
  shows "\<exists>out.
     processedData (JObj kvs) = Inr (JObj out)
     \<and> map_of out (ascii ''versions'')
         = Some (JObj (map (\<lambda>(ver, d). (ver, JObj (map (\<lambda>k. (ascii k, valueAt d k)) versionFields)))
                (drop (length vs - 10) vs)))
     \<and> length (drop (length vs - 10) vs) = 10
     \<and> map_of out (ascii ''time'')
         = Some (JObj ((ascii ''created'', field ts ''created'') # (ascii ''modified'', field ts ''modified'')
              # sliceLast 10 (filter (\<lambda>(k, v). k \<noteq> ascii ''created'' \<and> k \<noteq> ascii ''modified'') ts)))"
proof -
  have v: "recentVersions (field kvs ''versions'') =
     Inr (JObj (map (\<lambda>(ver, d). (ver, JObj (map (\<lambda>k. (ascii k, valueAt d k)) versionFields)))
            (drop (length vs - 10) vs)))"
    unfolding assms(1) using recentVersions_kept [OF assms(2)] assms(4) by (simp add: sliceLast_def)
  have t: "recentTimes (field kvs ''time'') =
     Inr (JObj ((ascii ''created'', field ts ''created'') # (ascii ''modified'', field ts ''modified'')
            # sliceLast 10 (filter (\<lambda>(k, v). k \<noteq> ascii ''created'' \<and> k \<noteq> ascii ''modified'') ts)))"
    unfolding assms(5) by (rule recentTimes_kept [OF assms(6)])
  have len: "length (drop (length vs - 10) vs) = 10"
    using assms(3) by simp
  show ?thesis
    unfolding processedData_object [OF v t]
    by (intro exI conjI, rule refl) (simp_all only: processedData_keys len)
qed



theorem processedData_keeps_last_10_witness:
  "\<exists>out kept times.
     processedData samplePackageDoc = Inr (JObj out)
     \<and> map_of out (ascii ''versions'') = Some (JObj kept)
     \<and> map fst kept = map ascii [''1.2.0'', ''1.3.0'', ''1.4.0'', ''1.5.0'', ''1.6.0'', ''1.7.0'',
                                  ''1.8.0'', ''1.9.0'', ''1.10.0'', ''1.11.0'']
     \<and> snd (kept ! 9) =
           JObj [(ascii ''name'', JStr (ascii ''zod'')), (ascii ''version'', JStr (ascii ''1.11.0'')),
                 (ascii ''description'', JUndefined), (ascii ''main'', JStr (ascii ''index.js'')),
                 (ascii ''dependencies'', JObj []), (ascii ''devDependencies'', JUndefined),
                 (ascii ''peerDependencies'', JUndefined)]
     \<and> map_of out (ascii ''time'') = Some (JObj times)
     \<and> map fst times = map ascii [''created'', ''modified'', ''1.2.0'', ''1.3.0'', ''1.4.0'', ''1.5.0'',
                                   ''1.6.0'', ''1.7.0'', ''1.8.0'', ''1.9.0'', ''1.10.0'', ''1.11.0'']"
proof -
  define vs where "vs = map (\<lambda>v. (v, sampleVersionDoc v)) sampleVersionKeys"
  define ts where "ts = (ascii ''created'', JStr (ascii ''2020-03-07T00:00:00.000Z''))
              # (ascii ''modified'', JStr (ascii ''2025-01-01T00:00:00.000Z''))
              # map (\<lambda>v. (v, JStr (ascii ''2024-06-01T00:00:00.000Z''))) sampleVersionKeys"
  define kvs where "kvs = [(ascii ''name'', JStr (ascii ''zod'')),
           (ascii ''dist-tags'', JObj [(ascii ''latest'', JStr (ascii ''1.11.0''))]),
           (ascii ''versions'', JObj vs), (ascii ''time'', JObj ts),
           (ascii ''readme'', JStr (ascii ''# zod''))]"
  have doc: "samplePackageDoc = JObj kvs"
    by (simp add: samplePackageDoc_def kvs_def vs_def ts_def)
  have keys: "distinct sampleVersionKeys" "length sampleVersionKeys = 12"
    "ascii ''created'' \<notin> set sampleVersionKeys" "ascii ''modified'' \<notin> set sampleVersionKeys"
    by (simp_all add: sampleVersionKeys_def ascii_def)
  have fv: "field kvs ''versions'' = JObj vs" and ft: "field kvs ''time'' = JObj ts"
    by (simp_all add: kvs_def field_def ascii_def)
  have "map fst vs = sampleVersionKeys"
    by (simp add: vs_def comp_def)
  then have dv: "distinct (map fst vs)"
    using keys(1) by (simp only:)
  have "map fst ts = ascii ''created'' # ascii ''modified'' # sampleVersionKeys"
    by (simp add: ts_def comp_def)
  then have dt: "distinct (map fst ts)"
    using keys(1,3,4) by (simp add: ascii_def)
  have len: "10 \<le> length vs"
    by (simp add: vs_def keys(2))
  have nn: "\<forall>d\<in>snd ` set (drop (length vs - 10) vs). \<not> nullish d"
    by (auto simp: vs_def sampleVersionDoc_def nullish_def dest!: in_set_dropD)
  from processedData_keeps_last_10 [OF fv dv len nn ft dt] obtain out where out:
    "processedData (JObj kvs) = Inr (JObj out)"
    "map_of out (ascii ''versions'')
         = Some (JObj (map (\<lambda>(ver, d). (ver, JObj (map (\<lambda>k. (ascii k, valueAt d k)) versionFields)))
                (drop (length vs - 10) vs)))"
    "map_of out (ascii ''time'')
         = Some (JObj ((ascii ''created'', field ts ''created'') # (ascii ''modified'', field ts ''modified'')
              # sliceLast 10 (filter (\<lambda>(k, v). k \<noteq> ascii ''created'' \<and> k \<noteq> ascii ''modified'') ts)))"
    by blast
  let ?kept = "map (\<lambda>(ver, d). (ver, JObj (map (\<lambda>k. (ascii k, valueAt d k)) versionFields)))
                (drop (length vs - 10) vs)"
  let ?times = "(ascii ''created'', field ts ''created'') # (ascii ''modified'', field ts ''modified'')
              # sliceLast 10 (filter (\<lambda>(k, v). k \<noteq> ascii ''created'' \<and> k \<noteq> ascii ''modified'') ts)"
  have k1: "map fst ?kept = map ascii [''1.2.0'', ''1.3.0'', ''1.4.0'', ''1.5.0'', ''1.6.0'', ''1.7.0'',
                                  ''1.8.0'', ''1.9.0'', ''1.10.0'', ''1.11.0'']"
    by (simp add: vs_def sampleVersionKeys_def)
  have k2: "snd (?kept ! 9) =
           JObj [(ascii ''name'', JStr (ascii ''zod'')), (ascii ''version'', JStr (ascii ''1.11.0'')),
                 (ascii ''description'', JUndefined), (ascii ''main'', JStr (ascii ''index.js'')),
                 (ascii ''dependencies'', JObj []), (ascii ''devDependencies'', JUndefined),
                 (ascii ''peerDependencies'', JUndefined)]"
    by (simp add: vs_def sampleVersionKeys_def versionFields_def valueAt_def sampleVersionDoc_def
        field_def ascii_def)
  have k3: "map fst ?times = map ascii [''created'', ''modified'', ''1.2.0'', ''1.3.0'', ''1.4.0'', ''1.5.0'',
                                   ''1.6.0'', ''1.7.0'', ''1.8.0'', ''1.9.0'', ''1.10.0'', ''1.11.0'']"
    by (simp add: ts_def sampleVersionKeys_def sliceLast_def ascii_def)
  show ?thesis
    unfolding doc
    apply (rule exI [of _ out], rule exI [of _ ?kept], rule exI [of _ ?times])
    apply (intro conjI)
         apply (rule out(1))
        apply (rule out(2))
       apply (rule k1)
      apply (rule k2)
     apply (rule out(3))
    apply (rule k3)
    done
qed


subsection \<open>Totality of the shaping\<close>

lemma getOpt_valueAt: "getOpt a k = Inr (valueAt a k)"
  by (cases a) (simp_all add: getOpt_def nullish_def get_def valueAt_def field_def)

lemma isRecord_not_nullish: "isRecord v \<Longrightarrow> \<not> nullish v"
  by (cases v) (simp_all add: isRecord_def nullish_def)

lemma primitive_toString: "primitive v \<Longrightarrow> \<exists>s. toStringJS h v = Inr s"
  by (cases v) (simp_all add: primitive_def)

lemma primitive_date: "primitive v \<Longrightarrow> datePrimitive h v = Inr v"
  by (cases v) (simp_all add: primitive_def datePrimitive_def)

lemma packageField_valueAt:
  "isRecord obj \<Longrightarrow> isRecord (valueAt obj ''package'') \<Longrightarrow>
     packageField obj k = Inr (valueAt (valueAt obj ''package'') k)"
  by (simp add: packageField_def get_valueAt isRecord_not_nullish)

lemma mapPackage_total:
  assumes "wellFormedSearchObject obj"
  shows "\<exists>w. mapPackage h obj =
     Inr \<lparr>name = valueAt (valueAt obj ''package'') ''name'',
          version = valueAt (valueAt obj ''package'') ''version'',
          description = valueAt (valueAt obj ''package'') ''description'',
          author = valueAt (valueAt (valueAt obj ''package'') ''author'') ''name'',
          homepage = valueAt (valueAt (valueAt obj ''package'') ''links'') ''homepage'',
          repository = valueAt (valueAt (valueAt obj ''package'') ''links'') ''repository'',
          keywords' = (if truthy (valueAt (valueAt obj ''package'') ''keywords'')
                       then valueAt (valueAt obj ''package'') ''keywords'' else JArr []),
          weeklyDownloads = w,
          lastPublish = JStr (localeDate h (valueAt (valueAt obj ''package'') ''date''))\<rparr>
     \<and> (valueAt obj ''score'' = JUndefined \<longrightarrow> w = JUndefined)"
proof -
  let ?m = "valueAt (valueAt (valueAt obj ''score'') ''detail'') ''maintenance''"
  from assms have r: "isRecord obj" "isRecord (valueAt obj ''package'')"
    and m: "primitive ?m" and d: "primitive (valueAt (valueAt obj ''package'') ''date'')"
    by (simp_all add: wellFormedSearchObject_def)
  note pf = packageField_valueAt [OF r]
  from primitive_toString [OF m, of h] obtain s where s: "toStringJS h ?m = Inr s" ..
  have u: "nullish (valueAt (valueAt JUndefined ''detail'') ''maintenance'')"
    by (simp add: valueAt_def nullish_def)
  show ?thesis
    by (rule exI [of _ "if nullish ?m then JUndefined else JStr s"])
      (simp add: mapPackage_def pf getOpt_valueAt get_valueAt [OF isRecord_not_nullish [OF r(1)]] s
        primitive_date [OF d] u)
qed

lemma mapE_nth:
  "mapE f xs = Inr ys \<Longrightarrow> length ys = length xs \<and> (\<forall>i<length xs. f (xs ! i) = Inr (ys ! i))"
proof (induction xs arbitrary: ys)
  case Nil
  then show ?case by simp
next
  case (Cons x xs)
  from Cons.prems obtain y where y: "f x = Inr y"
    by (cases "f x") simp_all
  with Cons.prems obtain zs where zs: "mapE f xs = Inr zs" and ys: "ys = y # zs"
    by (cases "mapE f xs") auto
  from Cons.IH [OF zs] have l: "length zs = length xs" and n: "\<forall>i<length xs. f (xs ! i) = Inr (zs ! i)"
    by simp_all
  have "\<forall>i<length (x # xs). f ((x # xs) ! i) = Inr (ys ! i)"
  proof (intro allI impI)
    fix i assume "i < length (x # xs)"
    then show "f ((x # xs) ! i) = Inr (ys ! i)"
      using y n ys by (cases i) simp_all
  qed
  then show ?case using l ys by simp
qed

lemma mapPackages_total:
  "list_all wellFormedSearchObject objs \<Longrightarrow> \<exists>ps. mapE (mapPackage h) objs = Inr ps"
proof (induction objs)
  case Nil
  then show ?case by simp
next
  case (Cons obj objs)
  then obtain ps where ps: "mapE (mapPackage h) objs = Inr ps" by auto
  from Cons.prems have "wellFormedSearchObject obj" by simp
  from mapPackage_total [OF this, of h] obtain p where p: "mapPackage h obj = Inr p" by blast
  show ?case by (simp add: p ps)
qed

lemma truthy_not_nullish: "truthy t \<Longrightarrow> \<not> nullish t"
  by (cases t) (simp_all add: nullish_def)

lemma objectEntries_total: "\<not> nullish t \<Longrightarrow> \<exists>es. objectEntries t = Inr es"
  by (cases t) (simp_all add: objectEntries_def nullish_def)

lemma recentTimes_total: "\<exists>x. recentTimes t = Inr x \<and> (t = JUndefined \<longrightarrow> x = JUndefined)"
proof (cases "truthy t")
  case True
  then have n: "\<not> nullish t" by (rule truthy_not_nullish)
  from objectEntries_total [OF n] obtain es where "objectEntries t = Inr es" ..
  with True n show ?thesis
    by (auto simp: recentTimes_def get_valueAt)
next
  case False
  then show ?thesis by (simp add: recentTimes_def)
qed

lemma recentVersions_total:
  assumes "list_all (\<lambda>(ver, details). isRecord details) vs"
  shows "\<exists>kept. recentVersions (JObj vs) = Inr (JObj kept)"
proof -
  let ?g = "\<lambda>(ver, d). (ver, JObj (map (\<lambda>k. (ascii k, valueAt d k)) versionFields))"
  have "\<forall>x\<in>set vs. isRecord (snd x)"
    using assms by (auto simp: list_all_iff)
  then have "\<forall>x\<in>set (sliceLast 10 vs). \<not> nullish (snd x)"
    unfolding sliceLast_def by (meson in_set_dropD isRecord_not_nullish)
  then have "\<forall>x\<in>set (sliceLast 10 vs).
      (\<lambda>(ver, details). bindE (versionDetails details) (\<lambda>d. Inr (ver, d))) x = Inr (?g x)"
    by (auto simp: versionDetails_kept)
  then have "mapE (\<lambda>(ver, details). bindE (versionDetails details) (\<lambda>d. Inr (ver, d))) (sliceLast 10 vs)
      = Inr (map ?g (sliceLast 10 vs))"
    by (rule mapE_all)
  then show ?thesis
    by (simp add: recentVersions_def objectEntries_def)
qed

lemma search_without_objects:
  assumes "isRecord payload" and "nullish (valueAt payload ''objects'')"
  shows "\<exists>m. searchResultOf h payload = Inl (TypeError m)"
proof -
  from assms(1) have g: "get payload ''objects'' = Inr (valueAt payload ''objects'')"
    by (simp add: get_valueAt isRecord_not_nullish)
  from assms(2) show ?thesis
    by (auto simp: searchResultOf_def g nullish_def)
qed

lemma document_without_versions:
  assumes "isRecord payload" and "nullish (valueAt payload ''versions'')"
  shows "(\<exists>m. versionsOf payload = Inl (TypeError m)) \<and> (\<exists>m. processedData payload = Inl (TypeError m))"
proof -
  have g: "get payload k = Inr (valueAt payload k)" for k
    using assms(1) by (simp add: get_valueAt isRecord_not_nullish)
  have e: "\<exists>m. objectEntries (valueAt payload ''versions'') = Inl (TypeError m)"
    using assms(2) by (auto simp: nullish_def objectEntries_def)
  then obtain m where m: "objectEntries (valueAt payload ''versions'') = Inl (TypeError m)" ..
  have "versionsOf payload = Inl (TypeError m)"
    by (simp add: versionsOf_def g objectKeys_def m)
  moreover have "processedData payload = Inl (TypeError m)"
    by (simp add: processedData_def g recentVersions_def m)
  ultimately show ?thesis by blast
qed

lemma packageContent_not_empty: "packageContent n v d r \<noteq> []"
  by (simp add: packageContent_def Let_def)


lemma searchPackages_rethrows:
  assumes "uriComponent h (query sa) = Inr q"
    and "fetch h (REGISTRY_URL @ ascii ''/-/v1/search?text='' @ q @ ascii ''&size='' @ numberToString h (maxResults sa)) = Response st (Inr payload) tb"
    and "200 \<le> st" and "st \<le> 299" and "searchResultOf h payload = Inl e"
  shows "searchPackages h sa =
     ([Acquire, Fetch (REGISTRY_URL @ ascii ''/-/v1/search?text='' @ q @ ascii ''&size='' @ numberToString h (maxResults sa))],
      Inl (Error (ascii ''Error searching npm packages: '' @ errorMessage e)))"
  using assms by (simp add: searchPackages_def perform_def httpGet_def checkOk_def pure_def)

lemma getPackageVersions_rethrows:
  assumes "fetch h (REGISTRY_URL @ ascii ''/'' @ packageName ga) = Response st (Inr payload) tb"
    and "200 \<le> st" and "st \<le> 299" and "versionsOf payload = Inl e"
  shows "getPackageVersions h ga =
     ([Acquire, Fetch (REGISTRY_URL @ ascii ''/'' @ packageName ga)],
      Inl (Error (ascii ''Error fetching package versions: '' @ errorMessage e)))"
  using assms by (simp add: getPackageVersions_def perform_def httpGet_def checkOk_def pure_def)

lemma getPackageDetails_rethrows:
  assumes "fetch h (REGISTRY_URL @ ascii ''/'' @ packageName ga) = Response st (Inr payload) tb"
    and "200 \<le> st" and "st \<le> 299" and "processedData payload = Inl e"
  shows "getPackageDetails h ga =
     ([Acquire, Fetch (REGISTRY_URL @ ascii ''/'' @ packageName ga)],
      Inl (Error (ascii ''Error fetching package details: '' @ errorMessage e)))"
  using assms by (simp add: getPackageDetails_def perform_def httpGet_def checkOk_def pure_def)

lemma fetchPackageContent_total:
  assumes "fetch h (url fa) = Response st jb (Inr html)" and "200 \<le> st" and "st \<le> 299"
  shows "\<exists>c. c \<noteq> [] \<and> fetchPackageContent h fa = ([Acquire, Fetch (url fa)], Inr c)"
proof -
  obtain n v d readme where "pageRegions h html = (n, v, d, readme)"
    by (cases "pageRegions h html") auto
  from fetchPackageContent_ok [OF assms this] packageContent_not_empty [of n v d readme]
  show ?thesis by blast
qed

text \<open>
  C3, as amended. Every result-shaping function returns a result on a well-formed payload,
  and a missing optional field degrades to an omitted one. The search mapping gives one
  package per object, each field read from the object: \<open>author\<close> is undefined where the
  package has no author, \<open>homepage\<close> and \<open>repository\<close> are undefined where it has no links,
  \<open>keywords\<close> is empty where it has none and \<open>weeklyDownloads\<close> is undefined where the object
  has no score. The version list and the package details are produced for every document
  whose versions are objects, with \<open>time\<close> undefined where the document has none. The page
  text is produced, and is not empty, for every page that was fetched. A response whose
  \<open>objects\<close> field is missing, and a document whose \<open>versions\<close> field is missing, make the
  search mapping, the version list and the package details raise a \<open>TypeError\<close>; when the
  registry answers a request with such a payload, \<open>searchPackages\<close>, \<open>getPackageVersions\<close>
  and \<open>getPackageDetails\<close> rethrow it as their own failure: an \<open>Error\<close> whose message is
  \<open>Error searching npm packages: \<close>, \<open>Error fetching package versions: \<close> or
  \<open>Error fetching package details: \<close> followed by the message of the \<open>TypeError\<close>.
\<close>

theorem shaping_total_on_well_formed_payloads:
  "(wellFormedSearch payload \<longrightarrow>
      (\<exists>r objs. searchResultOf h payload = Inr r
         \<and> totalResults r = valueAt payload ''total''
         \<and> valueAt payload ''objects'' = JArr objs \<and> length (packages r) = length objs
         \<and> (\<forall>i<length objs.
               name (packages r ! i) = valueAt (valueAt (objs ! i) ''package'') ''name''
               \<and> version (packages r ! i) = valueAt (valueAt (objs ! i) ''package'') ''version''
               \<and> description (packages r ! i) = valueAt (valueAt (objs ! i) ''package'') ''description''
               \<and> author (packages r ! i) = valueAt (valueAt (valueAt (objs ! i) ''package'') ''author'') ''name''
               \<and> homepage (packages r ! i) = valueAt (valueAt (valueAt (objs ! i) ''package'') ''links'') ''homepage''
               \<and> repository (packages r ! i) = valueAt (valueAt (valueAt (objs ! i) ''package'') ''links'') ''repository''
               \<and> keywords' (packages r ! i) =
                   (if truthy (valueAt (valueAt (objs ! i) ''package'') ''keywords'')
                    then valueAt (valueAt (objs ! i) ''package'') ''keywords'' else JArr [])
               \<and> lastPublish (packages r ! i) = JStr (localeDate h (valueAt (valueAt (objs ! i) ''package'') ''date''))
               \<and> (valueAt (valueAt (objs ! i) ''package'') ''author'' = JUndefined
                    \<longrightarrow> author (packages r ! i) = JUndefined)
               \<and> (valueAt (valueAt (objs ! i) ''package'') ''links'' = JUndefined
                    \<longrightarrow> homepage (packages r ! i) = JUndefined \<and> repository (packages r ! i) = JUndefined)
               \<and> (valueAt (valueAt (objs ! i) ''package'') ''keywords'' = JUndefined
                    \<longrightarrow> keywords' (packages r ! i) = JArr [])
               \<and> (valueAt (objs ! i) ''score'' = JUndefined
                    \<longrightarrow> weeklyDownloads (packages r ! i) = JUndefined))))
   \<and> (wellFormedDocument payload \<longrightarrow>
        (\<exists>vs out. versionsOf payload = Inr vs \<and> processedData payload = Inr (JObj out)
           \<and> (valueAt payload ''time'' = JUndefined \<longrightarrow> map_of out (ascii ''time'') = Some JUndefined)))
   \<and> (fetch h (url fa) = Response st jb (Inr html) \<and> 200 \<le> st \<and> st \<le> 299
      \<longrightarrow> (\<exists>c. c \<noteq> [] \<and> fetchPackageContent h fa = ([Acquire, Fetch (url fa)], Inr c)))
   \<and> (isRecord payload \<and> nullish (valueAt payload ''objects'')
        \<longrightarrow> (\<exists>m. searchResultOf h payload = Inl (TypeError m)))
   \<and> (isRecord payload \<and> nullish (valueAt payload ''versions'')
        \<longrightarrow> (\<exists>m. versionsOf payload = Inl (TypeError m)) \<and> (\<exists>m. processedData payload = Inl (TypeError m)))
   \<and> (uriComponent h (query sa) = Inr q
        \<and> fetch h (REGISTRY_URL @ ascii ''/-/v1/search?text='' @ q @ ascii ''&size='' @ numberToString h (maxResults sa)) = Response st (Inr payload) tb
        \<and> 200 \<le> st \<and> st \<le> 299 \<and> isRecord payload \<and> nullish (valueAt payload ''objects'')
      \<longrightarrow> (\<exists>m. searchResultOf h payload = Inl (TypeError m)
             \<and> searchPackages h sa =
                 ([Acquire, Fetch (REGISTRY_URL @ ascii ''/-/v1/search?text='' @ q @ ascii ''&size='' @ numberToString h (maxResults sa))],
                  Inl (Error (ascii ''Error searching npm packages: '' @ m)))))
   \<and> (fetch h (REGISTRY_URL @ ascii ''/'' @ packageName ga) = Response st (Inr payload) tb
        \<and> 200 \<le> st \<and> st \<le> 299 \<and> isRecord payload \<and> nullish (valueAt payload ''versions'')
      \<longrightarrow> (\<exists>m. versionsOf payload = Inl (TypeError m)
             \<and> getPackageVersions h ga =
                 ([Acquire, Fetch (REGISTRY_URL @ ascii ''/'' @ packageName ga)],
                  Inl (Error (ascii ''Error fetching package versions: '' @ m))))
        \<and> (\<exists>m. processedData payload = Inl (TypeError m)
             \<and> getPackageDetails h ga =
                 ([Acquire, Fetch (REGISTRY_URL @ ascii ''/'' @ packageName ga)],
                  Inl (Error (ascii ''Error fetching package details: '' @ m)))))"
proof (intro conjI impI)
  assume wf: "wellFormedSearch payload"
  then obtain objs where o: "valueAt payload ''objects'' = JArr objs"
    and rec: "isRecord payload" and all: "list_all wellFormedSearchObject objs"
    by (auto simp: wellFormedSearch_def split: jsvalue.splits)
  have g: "get payload k = Inr (valueAt payload k)" for k
    using rec by (simp add: get_valueAt isRecord_not_nullish)
  from mapPackages_total [OF all, of h] obtain ps where ps: "mapE (mapPackage h) objs = Inr ps" ..
  from mapE_nth [OF ps] have len: "length ps = length objs"
    and nth: "\<forall>i<length objs. mapPackage h (objs ! i) = Inr (ps ! i)"
    by simp_all
  have u: "valueAt JUndefined k = JUndefined" for k
    by (simp add: valueAt_def)
  have each: "\<forall>i<length objs.
               name (ps ! i) = valueAt (valueAt (objs ! i) ''package'') ''name''
               \<and> version (ps ! i) = valueAt (valueAt (objs ! i) ''package'') ''version''
               \<and> description (ps ! i) = valueAt (valueAt (objs ! i) ''package'') ''description''
               \<and> author (ps ! i) = valueAt (valueAt (valueAt (objs ! i) ''package'') ''author'') ''name''
               \<and> homepage (ps ! i) = valueAt (valueAt (valueAt (objs ! i) ''package'') ''links'') ''homepage''
               \<and> repository (ps ! i) = valueAt (valueAt (valueAt (objs ! i) ''package'') ''links'') ''repository''
               \<and> keywords' (ps ! i) =
                   (if truthy (valueAt (valueAt (objs ! i) ''package'') ''keywords'')
                    then valueAt (valueAt (objs ! i) ''package'') ''keywords'' else JArr [])
               \<and> lastPublish (ps ! i) = JStr (localeDate h (valueAt (valueAt (objs ! i) ''package'') ''date''))
               \<and> (valueAt (valueAt (objs ! i) ''package'') ''author'' = JUndefined
                    \<longrightarrow> author (ps ! i) = JUndefined)
               \<and> (valueAt (valueAt (objs ! i) ''package'') ''links'' = JUndefined
                    \<longrightarrow> homepage (ps ! i) = JUndefined \<and> repository (ps ! i) = JUndefined)
               \<and> (valueAt (valueAt (objs ! i) ''package'') ''keywords'' = JUndefined
                    \<longrightarrow> keywords' (ps ! i) = JArr [])
               \<and> (valueAt (objs ! i) ''score'' = JUndefined
                    \<longrightarrow> weeklyDownloads (ps ! i) = JUndefined)"
  proof (intro allI impI)
    fix i assume i: "i < length objs"
    with all have "wellFormedSearchObject (objs ! i)"
      by (simp add: list_all_length)
    from mapPackage_total [OF this, of h] nth i
    obtain w where p: "ps ! i =
        \<lparr>name = valueAt (valueAt (objs ! i) ''package'') ''name'',
          version = valueAt (valueAt (objs ! i) ''package'') ''version'',
          description = valueAt (valueAt (objs ! i) ''package'') ''description'',
          author = valueAt (valueAt (valueAt (objs ! i) ''package'') ''author'') ''name'',
          homepage = valueAt (valueAt (valueAt (objs ! i) ''package'') ''links'') ''homepage'',
          repository = valueAt (valueAt (valueAt (objs ! i) ''package'') ''links'') ''repository'',
          keywords' = (if truthy (valueAt (valueAt (objs ! i) ''package'') ''keywords'')
                       then valueAt (valueAt (objs ! i) ''package'') ''keywords'' else JArr []),
          weeklyDownloads = w,
          lastPublish = JStr (localeDate h (valueAt (valueAt (objs ! i) ''package'') ''date''))\<rparr>"
      and w: "valueAt (objs ! i) ''score'' = JUndefined \<longrightarrow> w = JUndefined"
      by auto
    show "name (ps ! i) = valueAt (valueAt (objs ! i) ''package'') ''name''
               \<and> version (ps ! i) = valueAt (valueAt (objs ! i) ''package'') ''version''
               \<and> description (ps ! i) = valueAt (valueAt (objs ! i) ''package'') ''description''
               \<and> author (ps ! i) = valueAt (valueAt (valueAt (objs ! i) ''package'') ''author'') ''name''
               \<and> homepage (ps ! i) = valueAt (valueAt (valueAt (objs ! i) ''package'') ''links'') ''homepage''
               \<and> repository (ps ! i) = valueAt (valueAt (valueAt (objs ! i) ''package'') ''links'') ''repository''
               \<and> keywords' (ps ! i) =
                   (if truthy (valueAt (valueAt (objs ! i) ''package'') ''keywords'')
                    then valueAt (valueAt (objs ! i) ''package'') ''keywords'' else JArr [])
               \<and> lastPublish (ps ! i) = JStr (localeDate h (valueAt (valueAt (objs ! i) ''package'') ''date''))
               \<and> (valueAt (valueAt (objs ! i) ''package'') ''author'' = JUndefined
                    \<longrightarrow> author (ps ! i) = JUndefined)
               \<and> (valueAt (valueAt (objs ! i) ''package'') ''links'' = JUndefined
                    \<longrightarrow> homepage (ps ! i) = JUndefined \<and> repository (ps ! i) = JUndefined)
               \<and> (valueAt (valueAt (objs ! i) ''package'') ''keywords'' = JUndefined
                    \<longrightarrow> keywords' (ps ! i) = JArr [])
               \<and> (valueAt (objs ! i) ''score'' = JUndefined
                    \<longrightarrow> weeklyDownloads (ps ! i) = JUndefined)"
      unfolding p using w by (simp add: u)
  qed
  have "searchResultOf h payload = Inr \<lparr>packages = ps, totalResults = valueAt payload ''total''\<rparr>"
    by (simp add: searchResultOf_def g o ps)
  then show "\<exists>r objs. searchResultOf h payload = Inr r
         \<and> totalResults r = valueAt payload ''total''
         \<and> valueAt payload ''objects'' = JArr objs \<and> length (packages r) = length objs
         \<and> (\<forall>i<length objs.
               name (packages r ! i) = valueAt (valueAt (objs ! i) ''package'') ''name''
               \<and> version (packages r ! i) = valueAt (valueAt (objs ! i) ''package'') ''version''
               \<and> description (packages r ! i) = valueAt (valueAt (objs ! i) ''package'') ''description''
               \<and> author (packages r ! i) = valueAt (valueAt (valueAt (objs ! i) ''package'') ''author'') ''name''
               \<and> homepage (packages r ! i) = valueAt (valueAt (valueAt (objs ! i) ''package'') ''links'') ''homepage''
               \<and> repository (packages r ! i) = valueAt (valueAt (valueAt (objs ! i) ''package'') ''links'') ''repository''
               \<and> keywords' (packages r ! i) =
                   (if truthy (valueAt (valueAt (objs ! i) ''package'') ''keywords'')
                    then valueAt (valueAt (objs ! i) ''package'') ''keywords'' else JArr [])
               \<and> lastPublish (packages r ! i) = JStr (localeDate h (valueAt (valueAt (objs ! i) ''package'') ''date''))
               \<and> (valueAt (valueAt (objs ! i) ''package'') ''author'' = JUndefined
                    \<longrightarrow> author (packages r ! i) = JUndefined)
               \<and> (valueAt (valueAt (objs ! i) ''package'') ''links'' = JUndefined
                    \<longrightarrow> homepage (packages r ! i) = JUndefined \<and> repository (packages r ! i) = JUndefined)
               \<and> (valueAt (valueAt (objs ! i) ''package'') ''keywords'' = JUndefined
                    \<longrightarrow> keywords' (packages r ! i) = JArr [])
               \<and> (valueAt (objs ! i) ''score'' = JUndefined
                    \<longrightarrow> weeklyDownloads (packages r ! i) = JUndefined))"
    using o len each
    by (intro exI [of _ "\<lparr>packages = ps, totalResults = valueAt payload ''total''\<rparr>"] exI [of _ objs])
      (simp add: u)
next
  assume wf: "wellFormedDocument payload"
  then obtain vs where v: "valueAt payload ''versions'' = JObj vs"
    and rec: "isRecord payload" and all: "list_all (\<lambda>(ver, details). isRecord details) vs"
    by (auto simp: wellFormedDocument_def split: jsvalue.splits)
  from rec obtain kvs where kvs: "payload = JObj kvs"
    by (cases payload) (simp_all add: isRecord_def)
  have f: "valueAt payload k = field kvs k" for k
    by (simp add: kvs valueAt_def)
  have fv: "field kvs ''versions'' = JObj vs"
    using v by (simp add: f)
  have vo: "versionsOf payload = Inr (rev (map fst vs))"
    by (simp add: versionsOf_def kvs get_JObj fv objectKeys_def objectEntries_def)
  from recentVersions_total [OF all] obtain kept where
    rv: "recentVersions (field kvs ''versions'') = Inr (JObj kept)"
    unfolding fv by blast
  from recentTimes_total [of "field kvs ''time''"] obtain t where
    rt: "recentTimes (field kvs ''time'') = Inr t" and tu: "field kvs ''time'' = JUndefined \<longrightarrow> t = JUndefined"
    by blast
  let ?out = "[(ascii ''name'', field kvs ''name''), (ascii ''description'', field kvs ''description''),
                (ascii ''dist-tags'', field kvs ''dist-tags''), (ascii ''maintainers'', field kvs ''maintainers''),
                (ascii ''homepage'', field kvs ''homepage''), (ascii ''repository'', field kvs ''repository''),
                (ascii ''license'', field kvs ''license''), (ascii ''versions'', JObj kept), (ascii ''time'', t)]"
  have pd: "processedData payload = Inr (JObj ?out)"
    unfolding kvs by (rule processedData_object [OF rv rt])
  have tm: "map_of ?out (ascii ''time'') = Some t"
    by (rule processedData_keys(2))
  have "valueAt payload ''time'' = JUndefined \<longrightarrow> map_of ?out (ascii ''time'') = Some JUndefined"
    unfolding tm using tu by (simp add: f)
  with vo pd show "\<exists>vs out. versionsOf payload = Inr vs \<and> processedData payload = Inr (JObj out)
           \<and> (valueAt payload ''time'' = JUndefined \<longrightarrow> map_of out (ascii ''time'') = Some JUndefined)"
    by blast
next
  assume "fetch h (url fa) = Response st jb (Inr html) \<and> 200 \<le> st \<and> st \<le> 299"
  then show "\<exists>c. c \<noteq> [] \<and> fetchPackageContent h fa = ([Acquire, Fetch (url fa)], Inr c)"
    using fetchPackageContent_total by blast
next
  assume "isRecord payload \<and> nullish (valueAt payload ''objects'')"
  then show "\<exists>m. searchResultOf h payload = Inl (TypeError m)"
    using search_without_objects by blast
next
  assume a: "isRecord payload \<and> nullish (valueAt payload ''versions'')"
  then show "\<exists>m. versionsOf payload = Inl (TypeError m)"
    using document_without_versions by blast
  from a show "\<exists>m. processedData payload = Inl (TypeError m)"
    using document_without_versions by blast
next
  assume a: "uriComponent h (query sa) = Inr q
        \<and> fetch h (REGISTRY_URL @ ascii ''/-/v1/search?text='' @ q @ ascii ''&size='' @ numberToString h (maxResults sa)) = Response st (Inr payload) tb
        \<and> 200 \<le> st \<and> st \<le> 299 \<and> isRecord payload \<and> nullish (valueAt payload ''objects'')"
  then obtain m where m: "searchResultOf h payload = Inl (TypeError m)"
    using search_without_objects by blast
  from a have "searchPackages h sa =
     ([Acquire, Fetch (REGISTRY_URL @ ascii ''/-/v1/search?text='' @ q @ ascii ''&size='' @ numberToString h (maxResults sa))],
      Inl (Error (ascii ''Error searching npm packages: '' @ errorMessage (TypeError m))))"
    using searchPackages_rethrows [where e = "TypeError m"] m by simp
  with m show "\<exists>m. searchResultOf h payload = Inl (TypeError m)
             \<and> searchPackages h sa =
                 ([Acquire, Fetch (REGISTRY_URL @ ascii ''/-/v1/search?text='' @ q @ ascii ''&size='' @ numberToString h (maxResults sa))],
                  Inl (Error (ascii ''Error searching npm packages: '' @ m)))"
    by (intro exI [of _ m]) simp
next
  assume a: "fetch h (REGISTRY_URL @ ascii ''/'' @ packageName ga) = Response st (Inr payload) tb
        \<and> 200 \<le> st \<and> st \<le> 299 \<and> isRecord payload \<and> nullish (valueAt payload ''versions'')"
  then obtain m where m: "versionsOf payload = Inl (TypeError m)"
    using document_without_versions by blast
  from a have "getPackageVersions h ga =
     ([Acquire, Fetch (REGISTRY_URL @ ascii ''/'' @ packageName ga)],
      Inl (Error (ascii ''Error fetching package versions: '' @ errorMessage (TypeError m))))"
    using getPackageVersions_rethrows [where e = "TypeError m"] m by simp
  with m show "\<exists>m. versionsOf payload = Inl (TypeError m)
             \<and> getPackageVersions h ga =
                 ([Acquire, Fetch (REGISTRY_URL @ ascii ''/'' @ packageName ga)],
                  Inl (Error (ascii ''Error fetching package versions: '' @ m)))"
    by (intro exI [of _ m]) simp
  from a obtain m' where m': "processedData payload = Inl (TypeError m')"
    using document_without_versions by blast
  from a have "getPackageDetails h ga =
     ([Acquire, Fetch (REGISTRY_URL @ ascii ''/'' @ packageName ga)],
      Inl (Error (ascii ''Error fetching package details: '' @ errorMessage (TypeError m'))))"
    using getPackageDetails_rethrows [where e = "TypeError m'"] m' by simp
  with m' show "\<exists>m. processedData payload = Inl (TypeError m)
             \<and> getPackageDetails h ga =
                 ([Acquire, Fetch (REGISTRY_URL @ ascii ''/'' @ packageName ga)],
                  Inl (Error (ascii ''Error fetching package details: '' @ m)))"
    by (intro exI [of _ m']) simp
qed


lemma sampleSearchResponse_well_formed: "wellFormedSearch sampleSearchResponse"
  by (simp add: wellFormedSearch_def sampleSearchResponse_def valueAt_def field_def isRecord_def
      wellFormedSearchObject_def primitive_def ascii_def)

lemma samplePackageDoc_well_formed: "wellFormedDocument samplePackageDoc"
  by (simp add: wellFormedDocument_def samplePackageDoc_def valueAt_def field_def isRecord_def
      sampleVersionKeys_def sampleVersionDoc_def ascii_def)

theorem shaping_total_on_well_formed_payloads_witness:
  "(\<exists>r. searchResultOf sampleHost sampleSearchResponse = Inr r
       \<and> totalResults r = JNum 42 \<and> length (packages r) = 3
       \<and> name (packages r ! 2) = JStr (ascii ''joi'')
       \<and> author (packages r ! 2) = JUndefined
       \<and> homepage (packages r ! 2) = JUndefined
       \<and> repository (packages r ! 2) = JUndefined
       \<and> keywords' (packages r ! 2) = JArr []
       \<and> weeklyDownloads (packages r ! 2) = JUndefined)
   \<and> (\<exists>vs out. versionsOf samplePackageDoc = Inr vs \<and> processedData samplePackageDoc = Inr (JObj out))
   \<and> (\<exists>c. c \<noteq> []
         \<and> fetchPackageContent sampleHost \<lparr>url = ascii ''https://www.npmjs.com/package/zod''\<rparr> =
             ([Acquire, Fetch (ascii ''https://www.npmjs.com/package/zod'')], Inr c))
   \<and> (\<exists>m. searchResultOf sampleHost (JObj []) = Inl (TypeError m))
   \<and> (\<exists>m. versionsOf (JObj []) = Inl (TypeError m))
   \<and> (\<exists>m. processedData (JObj []) = Inl (TypeError m))
   \<and> (\<exists>m. searchPackages emptyAnswerHost \<lparr>query = ascii ''zod'', maxResults = 10\<rparr> =
             ([Acquire, Fetch (REGISTRY_URL @ ascii ''/-/v1/search?text='' @ ascii ''zod'' @ ascii ''&size=''
                                @ numberToString emptyAnswerHost 10)],
              Inl (Error (ascii ''Error searching npm packages: '' @ m))))
   \<and> (\<exists>m. getPackageVersions emptyAnswerHost \<lparr>packageName = ascii ''zod''\<rparr> =
             ([Acquire, Fetch (REGISTRY_URL @ ascii ''/'' @ ascii ''zod'')],
              Inl (Error (ascii ''Error fetching package versions: '' @ m))))
   \<and> (\<exists>m. getPackageDetails emptyAnswerHost \<lparr>packageName = ascii ''zod''\<rparr> =
             ([Acquire, Fetch (REGISTRY_URL @ ascii ''/'' @ ascii ''zod'')],
              Inl (Error (ascii ''Error fetching package details: '' @ m))))"
proof -
  have objs: "valueAt sampleSearchResponse ''objects'' = JArr objs \<Longrightarrow>
      length objs = 3
      \<and> valueAt (valueAt (objs ! 2) ''package'') ''name'' = JStr (ascii ''joi'')
      \<and> valueAt (valueAt (objs ! 2) ''package'') ''author'' = JUndefined
      \<and> valueAt (valueAt (objs ! 2) ''package'') ''links'' = JUndefined
      \<and> valueAt (valueAt (objs ! 2) ''package'') ''keywords'' = JUndefined
      \<and> valueAt (objs ! 2) ''score'' = JUndefined" for objs
    by (auto simp: sampleSearchResponse_def valueAt_def field_def ascii_def)
  have tot: "valueAt sampleSearchResponse ''total'' = JNum 42"
    by (simp add: sampleSearchResponse_def valueAt_def field_def ascii_def)
  have empty: "isRecord (JObj [])" "nullish (valueAt (JObj []) ''objects'')"
    "nullish (valueAt (JObj []) ''versions'')"
    by (simp_all add: isRecord_def nullish_def valueAt_def field_def)
  from shaping_total_on_well_formed_payloads
    [where payload = sampleSearchResponse and h = sampleHost, THEN conjunct1, THEN mp,
      OF sampleSearchResponse_well_formed]
  obtain r objs where r: "searchResultOf sampleHost sampleSearchResponse = Inr r"
    "totalResults r = valueAt sampleSearchResponse ''total''"
    "valueAt sampleSearchResponse ''objects'' = JArr objs" "length (packages r) = length objs"
    "\<forall>i<length objs.
               name (packages r ! i) = valueAt (valueAt (objs ! i) ''package'') ''name''
               \<and> (valueAt (valueAt (objs ! i) ''package'') ''author'' = JUndefined
                    \<longrightarrow> author (packages r ! i) = JUndefined)
               \<and> (valueAt (valueAt (objs ! i) ''package'') ''links'' = JUndefined
                    \<longrightarrow> homepage (packages r ! i) = JUndefined \<and> repository (packages r ! i) = JUndefined)
               \<and> (valueAt (valueAt (objs ! i) ''package'') ''keywords'' = JUndefined
                    \<longrightarrow> keywords' (packages r ! i) = JArr [])
               \<and> (valueAt (objs ! i) ''score'' = JUndefined
                    \<longrightarrow> weeklyDownloads (packages r ! i) = JUndefined)"
    by blast
  note o = objs [OF r(3)]
  have two: "2 < length objs" using o by simp
  have a: "\<exists>r. searchResultOf sampleHost sampleSearchResponse = Inr r
       \<and> totalResults r = JNum 42 \<and> length (packages r) = 3
       \<and> name (packages r ! 2) = JStr (ascii ''joi'')
       \<and> author (packages r ! 2) = JUndefined
       \<and> homepage (packages r ! 2) = JUndefined
       \<and> repository (packages r ! 2) = JUndefined
       \<and> keywords' (packages r ! 2) = JArr []
       \<and> weeklyDownloads (packages r ! 2) = JUndefined"
    using r(1,2,4) r(5) [rule_format, OF two] o tot by (intro exI [of _ r]) simp
  from shaping_total_on_well_formed_payloads
    [where payload = samplePackageDoc, THEN conjunct2, THEN conjunct1, THEN mp,
      OF samplePackageDoc_well_formed]
  have b: "\<exists>vs out. versionsOf samplePackageDoc = Inr vs \<and> processedData samplePackageDoc = Inr (JObj out)"
    by blast
  have page: "fetch sampleHost (url \<lparr>url = ascii ''https://www.npmjs.com/package/zod''\<rparr>) =
      Response 200 (Inr samplePackageDoc) (Inr (ascii ''<html></html>'')) \<and> (200::nat) \<le> 200 \<and> (200::nat) \<le> 299"
    by (simp add: sampleHost_def REGISTRY_URL_def ascii_def)
  from shaping_total_on_well_formed_payloads
    [where h = sampleHost and fa = "\<lparr>url = ascii ''https://www.npmjs.com/package/zod''\<rparr>"
       and st = 200 and jb = "Inr samplePackageDoc" and html = "ascii ''<html></html>''",
      THEN conjunct2, THEN conjunct2, THEN conjunct1, THEN mp, OF page]
  have p: "\<exists>c. c \<noteq> []
         \<and> fetchPackageContent sampleHost \<lparr>url = ascii ''https://www.npmjs.com/package/zod''\<rparr> =
             ([Acquire, Fetch (ascii ''https://www.npmjs.com/package/zod'')], Inr c)"
    by simp
  note gen = shaping_total_on_well_formed_payloads
    [where h = emptyAnswerHost and payload = "JObj []" and st = 200 and tb = "Inr []"
       and sa = "\<lparr>query = ascii ''zod'', maxResults = 10\<rparr>" and q = "ascii ''zod''"
       and ga = "\<lparr>packageName = ascii ''zod''\<rparr>", THEN conjunct2, THEN conjunct2, THEN conjunct2]
  from shaping_total_on_well_formed_payloads
    [where h = sampleHost and payload = "JObj []", THEN conjunct2, THEN conjunct2, THEN conjunct2]
    empty
  have c: "\<exists>m. searchResultOf sampleHost (JObj []) = Inl (TypeError m)"
    "\<exists>m. versionsOf (JObj []) = Inl (TypeError m)"
    "\<exists>m. processedData (JObj []) = Inl (TypeError m)"
    by blast+
  have f: "fetch emptyAnswerHost u = Response 200 (Inr (JObj [])) (Inr [])" for u
    by (simp add: emptyAnswerHost_def)
  have q: "uriComponent emptyAnswerHost (query \<lparr>query = ascii ''zod'', maxResults = 10\<rparr>) = Inr (ascii ''zod'')"
    by (simp add: emptyAnswerHost_def sampleHost_def)
  from gen [THEN conjunct2, THEN conjunct2] empty f q
  have d: "\<exists>m. searchPackages emptyAnswerHost \<lparr>query = ascii ''zod'', maxResults = 10\<rparr> =
             ([Acquire, Fetch (REGISTRY_URL @ ascii ''/-/v1/search?text='' @ ascii ''zod'' @ ascii ''&size=''
                                @ numberToString emptyAnswerHost 10)],
              Inl (Error (ascii ''Error searching npm packages: '' @ m)))"
    "\<exists>m. getPackageVersions emptyAnswerHost \<lparr>packageName = ascii ''zod''\<rparr> =
             ([Acquire, Fetch (REGISTRY_URL @ ascii ''/'' @ ascii ''zod'')],
              Inl (Error (ascii ''Error fetching package versions: '' @ m)))"
    "\<exists>m. getPackageDetails emptyAnswerHost \<lparr>packageName = ascii ''zod''\<rparr> =
             ([Acquire, Fetch (REGISTRY_URL @ ascii ''/'' @ ascii ''zod'')],
              Inl (Error (ascii ''Error fetching package details: '' @ m)))"
    by auto
  from a b p c d show ?thesis by blast
qed

text \<open>
  The claim C3 as stated fails: on a response with no \<open>objects\<close> and on a document with no
  \<open>versions\<close> the shaping raises, and \<open>get_package_versions\<close> ends in the failure
  \<open>Error fetching package versions: ...\<close> instead of an empty list.
\<close>

theorem shaping_raises_on_missing_fields:
  "searchResultOf sampleHost (JObj []) =
     Inl (TypeError (ascii ''Cannot read properties of undefined (reading '' @ quote @ ascii ''map'' @ quote @ ascii '')''))
   \<and> versionsOf (JObj []) = Inl (TypeError (ascii ''Cannot convert undefined or null to object''))
   \<and> processedData (JObj []) = Inl (TypeError (ascii ''Cannot convert undefined or null to object''))
   \<and> resultPromise emptyAnswerHost (ascii ''get_package_versions'')
         (JObj [(ascii ''packageName'', JStr (ascii ''zod''))]) =
       ([Acquire, Fetch (REGISTRY_URL @ ascii ''/'' @ ascii ''zod'')],
        Inl (Error (ascii ''Error fetching package versions: ''
                      @ ascii ''Cannot convert undefined or null to object'')))"
proof -
  have names: "ascii ''get_package_versions'' \<noteq> ascii ''search_npm''"
    "ascii ''get_package_versions'' \<noteq> ascii ''fetch_package_content''"
    by (simp_all add: ascii_def)
  have parse: "GetPackageVersionsSchema (JObj [(ascii ''packageName'', JStr (ascii ''zod''))])
      = Some \<lparr>packageName = ascii ''zod''\<rparr>"
    by (simp add: GetPackageVersionsSchema_def zObject_def field_def zString_def)
  have v: "versionsOf (JObj []) = Inl (TypeError (ascii ''Cannot convert undefined or null to object''))"
    by (simp add: versionsOf_def get_def objectKeys_def objectEntries_def)
  have f: "fetch emptyAnswerHost u = Response 200 (Inr (JObj [])) (Inr [])" for u
    by (simp add: emptyAnswerHost_def)
  have "getPackageVersions emptyAnswerHost \<lparr>packageName = ascii ''zod''\<rparr> =
       ([Acquire, Fetch (REGISTRY_URL @ ascii ''/'' @ ascii ''zod'')],
        Inl (Error (ascii ''Error fetching package versions: ''
                      @ ascii ''Cannot convert undefined or null to object'')))"
    by (simp add: getPackageVersions_def perform_def httpGet_def f checkOk_def pure_def v)
  then have "resultPromise emptyAnswerHost (ascii ''get_package_versions'')
         (JObj [(ascii ''packageName'', JStr (ascii ''zod''))]) =
       ([Acquire, Fetch (REGISTRY_URL @ ascii ''/'' @ ascii ''zod'')],
        Inl (Error (ascii ''Error fetching package versions: ''
                      @ ascii ''Cannot convert undefined or null to object'')))"
    by (simp add: resultPromise_def names parse)
  moreover have "searchResultOf sampleHost (JObj []) =
     Inl (TypeError (ascii ''Cannot read properties of undefined (reading '' @ quote @ ascii ''map'' @ quote @ ascii '')''))"
    by (simp add: searchResultOf_def get_def)
  moreover have "processedData (JObj []) = Inl (TypeError (ascii ''Cannot convert undefined or null to object''))"
    by (simp add: processedData_def get_def recentVersions_def objectEntries_def)
  ultimately show ?thesis using v by blast
qed

end
